theory Spec2Isabelle
  imports Main "HOL-Library.Extended_Nat"
begin

section \<open>Strings\<close>

text \<open>
  Source strings are modelled as \<open>string\<close> (lists of 8-bit characters), so the model
  covers texts whose code units are below 256. Counts of list elements are \<open>nat\<close>.
  The numbers the source computes with \<open>parseInt\<close> and \<open>++\<close> are IEEE doubles;
  they are modelled in section \<open>Numbers\<close> below.
\<close>

text \<open>\<open>s.startsWith(p)\<close>\<close>

fun startsWith :: "string \<Rightarrow> string \<Rightarrow> bool" where
  "startsWith [] s = True"
| "startsWith (p # ps) [] = False"
| "startsWith (p # ps) (c # cs) = (p = c \<and> startsWith ps cs)"

text \<open>\<open>s.endsWith(p)\<close>\<close>

definition endsWith :: "string \<Rightarrow> string \<Rightarrow> bool" where
  "endsWith p s = startsWith (rev p) (rev s)"

text \<open>\<open>s.includes(p)\<close>\<close>

fun includesStr :: "string \<Rightarrow> string \<Rightarrow> bool" where
  "includesStr p [] = (p = [])"
| "includesStr p (c # cs) = (startsWith p (c # cs) \<or> includesStr p cs)"

text \<open>The regular expression class \<open>\d\<close>: the ten ASCII digits.\<close>

definition isDigit :: "char \<Rightarrow> bool" where
  "isDigit c = (48 \<le> (of_char c :: nat) \<and> (of_char c :: nat) \<le> 57)"

text \<open>
  What the regular expression atom \<open>.\<close> refuses and what \<open>^\<close> follows under the
  \<open>m\<close> flag: a line terminator. Of the four (LF, CR, U+2028, U+2029) the first two
  are 8-bit characters.
\<close>

definition isLineTerminator :: "char \<Rightarrow> bool" where
  "isLineTerminator c = (c = CHR 0x0A \<or> c = CHR 0x0D)"

section \<open>Numbers\<close>

text \<open>
  The source's numbers are IEEE 754 doubles. The parser and the extractor produce them
  in two ways only: \<open>parseInt\<close> on a non-empty string of decimal digits, and \<open>++\<close> on
  a line counter that started at 0 or at such a \<open>parseInt\<close>. All these values are
  non-negative integers or \<open>Infinity\<close>, so a number is an \<open>enat\<close>: \<open>enat n\<close> is the
  double whose value is the integer \<open>n\<close>, and \<open>\<infinity>\<close> is \<open>Infinity\<close>.

  Every integer below \<open>2 ^ 53 = 9007199254740992\<close> is a double. An integer \<open>n\<close> from
  there on has \<open>53 + e\<close> binary digits for some \<open>e \<ge> 1\<close>, and the doubles around it are
  the multiples of \<open>2 ^ e\<close>: the nearest one is taken, the one with the even multiplier
  when \<open>n\<close> is half way, and \<open>Infinity\<close> when that is \<open>2 ^ 1024\<close>.
\<close>

definition safeLimit :: nat where
  "safeLimit = 9007199254740992"

text \<open>The test \<open>n < 2 ^ 53\<close>.\<close>

definition isSafe :: "nat \<Rightarrow> bool" where
  "isSafe n = (int n < 9007199254740992)"

text \<open>The least \<open>e' \<ge> e\<close> with \<open>n < 2 ^ 53 * 2 ^ e'\<close>.\<close>

function binaryExponent :: "nat \<Rightarrow> nat \<Rightarrow> nat" where
  "binaryExponent e n = (if n < safeLimit * 2 ^ e then e else binaryExponent (Suc e) n)"
  by pat_completeness auto
termination
proof (relation "measure (\<lambda>(e, n). Suc n - safeLimit * 2 ^ e)")
  fix e n :: nat
  assume a: "\<not> n < safeLimit * 2 ^ e"
  define x where "x = safeLimit * 2 ^ e"
  have "0 < x"
    by (simp add: x_def safeLimit_def)
  moreover have "safeLimit * 2 ^ Suc e = 2 * x"
    by (simp add: x_def)
  moreover from a have "\<not> n < x"
    by (simp add: x_def)
  ultimately have "Suc n - safeLimit * 2 ^ Suc e < Suc n - x"
    by arith
  then show "((Suc e, n), (e, n)) \<in> measure (\<lambda>(e, n). Suc n - safeLimit * 2 ^ e)"
    by (simp add: x_def)
qed simp

declare binaryExponent.simps [simp del]

text \<open>
  The double nearest to the integer \<open>n\<close> (round to nearest, ties to even): with \<open>e\<close> as
  above, \<open>n = q * 2 ^ e + r\<close> where \<open>2 ^ 52 \<le> q < 2 ^ 53\<close>, and the multiplier \<open>m\<close> is
  \<open>q\<close> or \<open>q + 1\<close>. The greatest finite double is \<open>(2 ^ 53 - 1) * 2 ^ 971\<close>.
\<close>

definition roundToDouble :: "nat \<Rightarrow> enat" where
  "roundToDouble n =
     (if isSafe n then enat n
      else
        let e = binaryExponent 1 n;
            q = n div 2 ^ e;
            r = n mod 2 ^ e;
            m = (if 2 ^ (e - 1) < r \<or> (r = 2 ^ (e - 1) \<and> odd q) then q + 1 else q)
        in if 971 < e \<or> (e = 971 \<and> m = safeLimit) then \<infinity> else enat (m * 2 ^ e))"

text \<open>The decimal value of a string of digits.\<close>

definition digitValue :: "char \<Rightarrow> nat" where
  "digitValue c = (of_char c :: nat) - 48"

definition decimalValue :: "string \<Rightarrow> nat" where
  "decimalValue s = foldl (\<lambda>n c. 10 * n + digitValue c) 0 s"

text \<open>
  \<open>parseInt(s, 10)\<close> and \<open>parseInt(s)\<close> on a non-empty string of digits, which is all
  the source passes to it: the double nearest to the decimal value. (Beyond 20
  significant digits the language lets an implementation read the later digits as 0;
  the model reads them as they are. Where a theorem below speaks of the value of a
  number, the string has a value below \<open>2 ^ 53\<close> or is \<open>9007199254740993\<close>.)
\<close>

definition parseInt :: "string \<Rightarrow> enat" where
  "parseInt s = roundToDouble (decimalValue s)"

text \<open>
  \<open>x++\<close> on a number: the double nearest to \<open>x + 1\<close>. It leaves \<open>2 ^ 53\<close> and
  \<open>Infinity\<close> as they are.
\<close>

definition increment :: "enat \<Rightarrow> enat" where
  "increment x = (case x of enat n \<Rightarrow> roundToDouble (n + 1) | \<infinity> \<Rightarrow> \<infinity>)"

text \<open>A number in a template string: its decimal digits.\<close>

fun digitsOf :: "nat \<Rightarrow> string" where
  "digitsOf n =
     (if n < 10 then [char_of (48 + n)]
      else digitsOf (n div 10) @ [char_of (48 + n mod 10)])"

text \<open>\<open>s.split("\n")\<close>: the pieces between line feeds, at least one piece.\<close>

fun splitNewline :: "string \<Rightarrow> string list" where
  "splitNewline [] = [[]]"
| "splitNewline (c # cs) =
     (if c = CHR 0x0A then [] # splitNewline cs
      else (case splitNewline cs of
              [] \<Rightarrow> [[c]]
            | piece # pieces \<Rightarrow> (c # piece) # pieces))"

section \<open>Diff model (parsers/types.ts)\<close>

datatype ChangeType = Add | Delete | Context

record Change =
  changeType :: ChangeType
  lineNumber :: enat
  content :: string

datatype FileStatus = Added | Modified | Deleted | Renamed

record FileDiff =
  path :: string
  oldPath :: "string option"
  status :: FileStatus
  additions :: nat
  deletions :: nat
  changes :: "Change list"

record ParsedDiff =
  files :: "FileDiff list"
  totalAdditions :: nat
  totalDeletions :: nat
  summary :: string

text \<open>
  The optional statistical summary of simple-git (\<open>DiffResult\<close>), as far as it is
  read; its \<open>deletions\<close> is \<open>deletionsTotal\<close> here, apart from the field of
  \<open>FileDiff\<close>.
\<close>

record DiffResult =
  changed :: nat
  insertions :: nat
  deletionsTotal :: nat

section \<open>Unified diff parser (parsers/git-diff-parser.ts)\<close>

subsection \<open>The regular expressions\<close>

text \<open>
  \<open>/^a\/(.+?) b\/(.+?)$/\<close> on the first line of a block. The lazy first group tries
  the occurrences of \<open>" b/"\<close> from left to right, each with at least one character
  before it; \<open>splitsAt\<close> lists these candidates in that order. A candidate matches
  when both groups are free of line terminators and the second, which must reach the end
  of the string, is not empty.
\<close>

fun splitsAt :: "string \<Rightarrow> string \<Rightarrow> string \<Rightarrow> (string \<times> string) list" where
  "splitsAt d pre [] = []"
| "splitsAt d pre (c # cs) =
     (if pre \<noteq> [] \<and> startsWith d (c # cs)
      then [(pre, drop (length d) (c # cs))] else [])
     @ splitsAt d (pre @ [c]) cs"

definition filePathMatch :: "string \<Rightarrow> (string \<times> string) option" where
  "filePathMatch line =
     (if startsWith ''a/'' line
      then List.find
             (\<lambda>(g1, g2). \<not> list_ex isLineTerminator g1 \<and> g2 \<noteq> []
                          \<and> \<not> list_ex isLineTerminator g2)
             (splitsAt '' b/'' [] (drop 2 line))
      else None)"

text \<open>
  \<open>/^@@ -\d+,?\d* \+(\d+),?\d* @@/\<close>, returning group 1. The expression is matched
  as the engine does it, by backtracking: each part lists the ways it can match, the
  way the engine tries first at the head, as pairs of what it took and what is left (or
  just what is left). A greedy run of digits offers the longest run first and then each
  shorter one down to its least length; \<open>,?\<close> offers the comma taken before the
  comma left. The match is the first way through all parts.
\<close>

definition literal :: "string \<Rightarrow> string \<Rightarrow> string list" where
  "literal p s = (if startsWith p s then [drop (length p) s] else [])"

definition optional :: "string \<Rightarrow> string \<Rightarrow> string list" where
  "optional p s = (if startsWith p s then [drop (length p) s] else []) @ [s]"

definition greedyDigits :: "nat \<Rightarrow> string \<Rightarrow> (string \<times> string) list" where
  "greedyDigits least s =
     map (\<lambda>k. (take k s, drop k s)) (rev [least ..< Suc (length (takeWhile isDigit s))])"

text \<open>\<open>(\d+),?\d*\<close>: the number taken by the group, and what is left behind the count.\<close>

definition numberAndCount :: "string \<Rightarrow> (string \<times> string) list" where
  "numberAndCount s =
     [(g, r3). (g, r1) \<leftarrow> greedyDigits 1 s, r2 \<leftarrow> optional '','' r1,
               (d, r3) \<leftarrow> greedyDigits 0 r2]"

definition hunkMatch :: "string \<Rightarrow> string option" where
  "hunkMatch line =
     (case [g1. r1 \<leftarrow> literal ''@@ -'' line, (g0, r2) \<leftarrow> numberAndCount r1,
                r3 \<leftarrow> literal '' +'' r2, (g1, r4) \<leftarrow> numberAndCount r3,
                r5 \<leftarrow> literal '' @@'' r4] of
        [] \<Rightarrow> None
      | g1 # others \<Rightarrow> Some g1)"

subsection \<open>parseFileDiff\<close>

text \<open>
  The local variables \<open>changes\<close>, \<open>additions\<close>, \<open>deletions\<close> and
  \<open>currentLineNumber\<close> of the loop over the lines of one block; the first three are
  named apart from the fields of \<open>FileDiff\<close>. The two counts start at 0 and grow by one
  for a non-empty line of the text at most, so they do not exceed the length of the
  text, which is below \<open>2 ^ 53\<close>, where \<open>++\<close> is exact: they are \<open>nat\<close>. The line counter is set from
  the text and is a number as above.
\<close>

record LineLoop =
  changesAcc :: "Change list"
  additionsAcc :: nat
  deletionsAcc :: nat
  currentLineNumber :: enat

definition initLoop :: LineLoop where
  "initLoop = \<lparr>changesAcc = [], additionsAcc = 0, deletionsAcc = 0, currentLineNumber = 0\<rparr>"

text \<open>The loop body for one line.\<close>

definition processLine :: "LineLoop \<Rightarrow> string \<Rightarrow> LineLoop" where
  "processLine s line =
     (case hunkMatch line of
        Some g1 \<Rightarrow> s\<lparr>currentLineNumber := parseInt g1\<rparr>
      | None \<Rightarrow>
          if startsWith ''+'' line \<and> \<not> startsWith ''+++'' line then
            s\<lparr>changesAcc := changesAcc s @
                 [\<lparr>changeType = Add, lineNumber = currentLineNumber s, content = drop 1 line\<rparr>],
              additionsAcc := additionsAcc s + 1,
              currentLineNumber := increment (currentLineNumber s)\<rparr>
          else if startsWith ''-'' line \<and> \<not> startsWith ''---'' line then
            s\<lparr>changesAcc := changesAcc s @
                 [\<lparr>changeType = Delete, lineNumber = currentLineNumber s, content = drop 1 line\<rparr>],
              deletionsAcc := deletionsAcc s + 1\<rparr>
          else if startsWith '' '' line then
            s\<lparr>changesAcc := changesAcc s @
                 [\<lparr>changeType = Context, lineNumber = currentLineNumber s, content = drop 1 line\<rparr>],
              currentLineNumber := increment (currentLineNumber s)\<rparr>
          else s)"

text \<open>
  \<open>parseFileDiff\<close>: \<open>lines[0]?.match(...)\<close> is no match when there is no first line.
\<close>

definition parseFileDiff :: "string \<Rightarrow> FileDiff option" where
  "parseFileDiff diffContent =
     (let lines = splitNewline diffContent in
      case (case lines of [] \<Rightarrow> None | first # others \<Rightarrow> filePathMatch first) of
        None \<Rightarrow> None
      | Some (oldP, newP) \<Rightarrow>
          let st = (if includesStr ''new file mode'' diffContent then Added
                    else if includesStr ''deleted file mode'' diffContent then Deleted
                    else if oldP \<noteq> newP then Renamed
                    else Modified);
              s = foldl processLine initLoop lines
          in Some \<lparr>path = newP,
                   oldPath = (if oldP \<noteq> newP then Some oldP else None),
                   status = st,
                   additions = additionsAcc s,
                   deletions = deletionsAcc s,
                   changes = changesAcc s\<rparr>)"

subsection \<open>processDiff\<close>

definition supportedExtensions :: "string list" where
  "supportedExtensions = [''.ts'', ''.tsx'', ''.js'', ''.jsx'']"

definition isSupportedFile :: "string \<Rightarrow> bool" where
  "isSupportedFile filePath = list_ex (\<lambda>ext. endsWith ext filePath) supportedExtensions"

text \<open>
  \<open>diffContent.split(/^diff --git /m)\<close>: the text is cut at every occurrence of the
  marker that starts the text or follows a line terminator. The flag says whether the
  position is such a line start; after a marker the position follows a space.
\<close>

function splitDiffGit :: "bool \<Rightarrow> string \<Rightarrow> string list" where
  "splitDiffGit lineStart [] = [[]]"
| "splitDiffGit lineStart (c # cs) =
     (if lineStart \<and> startsWith ''diff --git '' (c # cs)
      then [] # splitDiffGit False (drop 11 (c # cs))
      else (case splitDiffGit (isLineTerminator c) cs of
              [] \<Rightarrow> [[c]]
            | piece # pieces \<Rightarrow> (c # piece) # pieces))"
  by pat_completeness auto
termination
  by (relation "measure (\<lambda>(b, s). length s)") auto

text \<open>The loop over the blocks: its three accumulators.\<close>

definition processBlock ::
  "FileDiff list \<times> nat \<times> nat \<Rightarrow> string \<Rightarrow> FileDiff list \<times> nat \<times> nat" where
  "processBlock acc fileDiff =
     (case acc of (fs, ta, td) \<Rightarrow>
        (case parseFileDiff fileDiff of
           None \<Rightarrow> (fs, ta, td)
         | Some fileDiffData \<Rightarrow>
             if \<not> isSupportedFile (path fileDiffData) then (fs, ta, td)
             else (fs @ [fileDiffData], ta + additions fileDiffData, td + deletions fileDiffData)))"

definition summaryText :: "DiffResult option \<Rightarrow> nat \<Rightarrow> nat \<Rightarrow> nat \<Rightarrow> string" where
  "summaryText smry n ta td =
     (case smry of
        Some r \<Rightarrow> digitsOf (changed r) @ '' files changed, '' @ digitsOf (insertions r)
                    @ '' insertions(+), '' @ digitsOf (deletionsTotal r) @ '' deletions(-)''
      | None \<Rightarrow> digitsOf n @ '' files changed, '' @ digitsOf ta
                    @ '' insertions(+), '' @ digitsOf td @ '' deletions(-)'')"

definition processDiff :: "string \<Rightarrow> DiffResult option \<Rightarrow> ParsedDiff" where
  "processDiff diffContent smry =
     (let fileDiffs = filter (\<lambda>b. b \<noteq> []) (splitDiffGit True diffContent) in
      case foldl processBlock ([], 0, 0) fileDiffs of
        (fs, ta, td) \<Rightarrow>
          \<lparr>files = fs, totalAdditions = ta, totalDeletions = td,
           summary = summaryText smry (length fs) ta td\<rparr>)"

subsection \<open>The line forms of the specification\<close>

text \<open>
  The specification's hunk header \<open>@@ -<oldStart>[,<oldCount>] +<newStart>[,<newCount>] @@\<close>,
  with whatever follows the closing \<open>@@\<close> on the line: the numbers are non-empty
  strings of digits, the counts are optional.
\<close>

definition isNumber :: "string \<Rightarrow> bool" where
  "isNumber s = (s \<noteq> [] \<and> list_all isDigit s)"

definition optNumber :: "string option \<Rightarrow> bool" where
  "optNumber oc = (case oc of None \<Rightarrow> True | Some n \<Rightarrow> isNumber n)"

definition countStr :: "string option \<Rightarrow> string" where
  "countStr oc = (case oc of None \<Rightarrow> [] | Some n \<Rightarrow> '','' @ n)"

definition hunkHeader ::
  "string \<Rightarrow> string option \<Rightarrow> string \<Rightarrow> string option \<Rightarrow> string \<Rightarrow> string" where
  "hunkHeader oldStart oldCount newStart newCount rest =
     ''@@ -'' @ oldStart @ countStr oldCount @ '' +'' @ newStart @ countStr newCount
       @ '' @@'' @ rest"

definition isAddLine :: "string \<Rightarrow> bool" where
  "isAddLine line = (startsWith ''+'' line \<and> \<not> startsWith ''+++'' line)"

definition isDeleteLine :: "string \<Rightarrow> bool" where
  "isDeleteLine line = (startsWith ''-'' line \<and> \<not> startsWith ''---'' line)"

definition isContextLine :: "string \<Rightarrow> bool" where
  "isContextLine line = startsWith '' '' line"

definition addOrContext :: "Change \<Rightarrow> bool" where
  "addOrContext c = (changeType c \<noteq> Delete)"

definition lineNumbersOf :: "FileDiff \<Rightarrow> enat list" where
  "lineNumbersOf fd = map lineNumber (filter addOrContext (changes fd))"

text \<open>
  A block lists its hunks in ascending order when no hunk header sets the counter below
  the value the lines before it have brought it to.
\<close>

fun hunksAscending :: "LineLoop \<Rightarrow> string list \<Rightarrow> bool" where
  "hunksAscending s [] = True"
| "hunksAscending s (l # ls) =
     ((case hunkMatch l of None \<Rightarrow> True | Some g1 \<Rightarrow> currentLineNumber s \<le> parseInt g1)
      \<and> hunksAscending (processLine s l) ls)"

text \<open>
  A block stays within the safe integers when it has fewer than \<open>2 ^ 53\<close> lines and
  the start named by each of its hunk headers, plus the number of its lines, is below
  \<open>2 ^ 53\<close>: then no value of the counter reaches \<open>2 ^ 53\<close>.
\<close>

definition withinSafeIntegers :: "string list \<Rightarrow> bool" where
  "withinSafeIntegers ls =
     (isSafe (length ls)
      \<and> list_all (\<lambda>l. case hunkMatch l of
                         None \<Rightarrow> True
                       | Some g1 \<Rightarrow> isSafe (decimalValue g1 + length ls)) ls)"

text \<open>The blocks of a diff text, and the files \<open>processDiff\<close> keeps of them.\<close>

definition blocksOf :: "string \<Rightarrow> string list" where
  "blocksOf diffContent = filter (\<lambda>b. b \<noteq> []) (splitDiffGit True diffContent)"

definition retained :: "string list \<Rightarrow> FileDiff list" where
  "retained blocks =
     filter (\<lambda>fd. isSupportedFile (path fd)) (List.map_filter parseFileDiff blocks)"

text \<open>
  The example of the specification, a block whose second hunk starts lower, and a block
  whose hunk starts at \<open>2 ^ 53 + 1\<close>.
\<close>

definition specExample :: string where
  "specExample =
     ''diff --git a/x.ts b/x.ts\<newline>@@ -1,2 +1,3 @@\<newline> line1\<newline>+added\<newline>-old\<newline>''"

definition descendingHunks :: string where
  "descendingHunks =
     ''diff --git a/x.ts b/x.ts\<newline>@@ -1 +5 @@\<newline>+a\<newline>@@ -1 +1 @@\<newline>+b\<newline>''"

definition hugeStart :: string where
  "hugeStart = ''a/x.ts b/x.ts\<newline>@@ -1 +9007199254740993 @@\<newline>+a\<newline>+b''"

text \<open>The invariants of the loop over the lines: the counts, and the order of the line numbers.\<close>

definition countsAgree :: "LineLoop \<Rightarrow> bool" where
  "countsAgree s =
     (additionsAcc s = length (filter (\<lambda>c. changeType c = Add) (changesAcc s))
      \<and> deletionsAcc s = length (filter (\<lambda>c. changeType c = Delete) (changesAcc s)))"

definition monotone :: "LineLoop \<Rightarrow> bool" where
  "monotone s =
     (sorted_wrt (<) (map lineNumber (filter addOrContext (changesAcc s)))
      \<and> sorted_wrt (\<le>) (map lineNumber (changesAcc s))
      \<and> (\<forall>c \<in> set (changesAcc s). lineNumber c \<le> currentLineNumber s
            \<and> (addOrContext c \<longrightarrow> lineNumber c < currentLineNumber s)))"

text \<open>A diff with a supported and an unsupported file, and a block with two ascending hunks.\<close>

definition mixedDiff :: string where
  "mixedDiff =
     ''diff --git a/x.ts b/x.ts\<newline>@@ -1,2 +1,3 @@\<newline> line1\<newline>+added\<newline>-old\<newline>diff --git a/notes.md b/notes.md\<newline>@@ -1 +1,2 @@\<newline>+more\<newline>+text\<newline>''"

definition twoHunks :: string where
  "twoHunks =
     ''a/x.ts b/x.ts\<newline>@@ -1,2 +1,2 @@\<newline> a\<newline>-b\<newline>+c\<newline>@@ -9 +9,2 @@\<newline> d\<newline>+e''"

section \<open>Properties of the unified diff parser\<close>

subsection \<open>The hunk header expression on the specification's headers\<close>

lemma not_digit_space: "\<not> isDigit CHR '' ''"
  by (simp add: isDigit_def)

lemma not_digit_comma: "\<not> isDigit CHR '',''"
  by (simp add: isDigit_def)

lemma takeWhile_digits:
  "list_all isDigit a \<Longrightarrow> \<not> isDigit x \<Longrightarrow> takeWhile isDigit (a @ x # r) = a"
  by (induction a) auto

text \<open>The first way a greedy run of digits matches is the whole run.\<close>

lemma greedyDigits_first:
  assumes "list_all isDigit a" "\<not> isDigit x" "least \<le> length a"
  shows "\<exists>ways. greedyDigits least (a @ x # r) = (a, x # r) # ways"
proof -
  have n: "length (takeWhile isDigit (a @ x # r)) = length a"
    using takeWhile_digits[OF assms(1,2)] by simp
  from assms(3) have "[least ..< Suc (length a)] = [least ..< length a] @ [length a]"
    by simp
  then have "rev [least ..< Suc (length a)] = length a # rev [least ..< length a]"
    by simp
  with n show ?thesis
    by (simp add: greedyDigits_def)
qed

lemma numberAndCount_first:
  assumes "isNumber a" "optNumber oc"
  shows "\<exists>ways. numberAndCount (a @ countStr oc @ CHR '' '' # r) = (a, CHR '' '' # r) # ways"
proof -
  from assms(1) have d: "list_all isDigit a" and l: "1 \<le> length a"
    by (auto simp: isNumber_def Suc_le_eq)
  show ?thesis
  proof (cases oc)
    case None
    obtain w1 where 1: "greedyDigits 1 (a @ CHR '' '' # r) = (a, CHR '' '' # r) # w1"
      using greedyDigits_first[OF d not_digit_space l] by blast
    obtain w2 where 2: "greedyDigits 0 ([] @ CHR '' '' # r) = ([], CHR '' '' # r) # w2"
      using greedyDigits_first[of "[]" "CHR '' ''" 0 r] not_digit_space by auto
    from None 1 2 show ?thesis
      by (simp add: numberAndCount_def countStr_def optional_def)
  next
    case (Some n)
    with assms(2) have dn: "list_all isDigit n"
      by (simp add: optNumber_def isNumber_def)
    obtain w1 where 1: "greedyDigits 1 (a @ CHR '','' # n @ CHR '' '' # r)
                          = (a, CHR '','' # n @ CHR '' '' # r) # w1"
      using greedyDigits_first[OF d not_digit_comma l] by blast
    obtain w2 where 2: "greedyDigits 0 (n @ CHR '' '' # r) = (n, CHR '' '' # r) # w2"
      using greedyDigits_first[OF dn not_digit_space, of 0] by auto
    from Some 1 2 show ?thesis
      by (simp add: numberAndCount_def countStr_def optional_def)
  qed
qed

lemma hunkMatch_header:
  assumes "isNumber a" "optNumber oc" "isNumber c" "optNumber nc"
  shows "hunkMatch (hunkHeader a oc c nc rest) = Some c"
proof -
  let ?t2 = "CHR ''@'' # CHR ''@'' # rest"
  let ?t1 = "CHR ''+'' # c @ countStr nc @ CHR '' '' # ?t2"
  have e: "hunkHeader a oc c nc rest = ''@@ -'' @ (a @ countStr oc @ CHR '' '' # ?t1)"
    by (simp add: hunkHeader_def)
  obtain w1 where 1: "numberAndCount (a @ countStr oc @ CHR '' '' # ?t1)
                        = (a, CHR '' '' # ?t1) # w1"
    using numberAndCount_first[OF assms(1,2)] by blast
  obtain w2 where 2: "numberAndCount (c @ countStr nc @ CHR '' '' # ?t2)
                        = (c, CHR '' '' # ?t2) # w2"
    using numberAndCount_first[OF assms(3,4)] by blast
  show ?thesis
    unfolding e hunkMatch_def
    by (simp add: literal_def 1 2)
qed

lemma hunkMatch_other:
  "startsWith [x] row \<Longrightarrow> x \<noteq> CHR ''@'' \<Longrightarrow> hunkMatch row = None"
  by (cases row) (auto simp: hunkMatch_def literal_def)

subsection \<open>Numbers below \<open>2 ^ 53\<close>\<close>

lemma safeLimit_power: "safeLimit = 2 ^ 53"
  by (simp add: safeLimit_def)

lemma isSafe_iff: "isSafe n = (n < safeLimit)"
  by (simp add: isSafe_def safeLimit_def)

lemma roundToDouble_safe: "n < safeLimit \<Longrightarrow> roundToDouble n = enat n"
  by (simp add: roundToDouble_def isSafe_iff)

lemma roundToDouble_safeLimit: "roundToDouble safeLimit = enat safeLimit"
  by (simp add: roundToDouble_def isSafe_def safeLimit_def binaryExponent.simps[of "Suc 0"]
      Let_def)

lemma parseInt_safe: "decimalValue g < safeLimit \<Longrightarrow> parseInt g = enat (decimalValue g)"
  by (simp add: parseInt_def roundToDouble_safe)

lemma increment_safe: "n < safeLimit \<Longrightarrow> increment (enat n) = enat (n + 1)"
proof (cases "n + 1 < safeLimit")
  case True
  then show ?thesis
    by (simp add: increment_def roundToDouble_safe)
next
  case False
  assume "n < safeLimit"
  with False have "n + 1 = safeLimit"
    by simp
  then show ?thesis
    using roundToDouble_safeLimit by (simp add: increment_def)
qed

text \<open>At \<open>2 ^ 53 + 1\<close> and at \<open>2 ^ 53\<close>.\<close>

lemma parseInt_beyond: "parseInt ''9007199254740993'' = enat 9007199254740992"
  by (simp add: parseInt_def decimalValue_def digitValue_def roundToDouble_def isSafe_def
      safeLimit_def binaryExponent.simps[of "Suc 0"] Let_def)

lemma increment_stuck: "increment (enat 9007199254740992) = enat 9007199254740992"
  by (simp add: increment_def roundToDouble_def isSafe_def safeLimit_def
      binaryExponent.simps[of "Suc 0"] Let_def)

subsection \<open>The loop body, by the form of the line\<close>

lemma processLine_header:
  assumes "isNumber a" "optNumber oc" "isNumber c" "optNumber nc"
  shows "processLine s (hunkHeader a oc c nc rest) = s\<lparr>currentLineNumber := parseInt c\<rparr>"
  by (simp add: processLine_def hunkMatch_header[OF assms])

lemma processLine_add:
  "isAddLine row \<Longrightarrow> processLine s row =
     s\<lparr>changesAcc := changesAcc s @
          [\<lparr>changeType = Add, lineNumber = currentLineNumber s, content = drop 1 row\<rparr>],
       additionsAcc := additionsAcc s + 1,
       currentLineNumber := increment (currentLineNumber s)\<rparr>"
  using hunkMatch_other[of "CHR ''+''" row]
  by (simp add: processLine_def isAddLine_def)

lemma processLine_delete:
  "isDeleteLine row \<Longrightarrow> processLine s row =
     s\<lparr>changesAcc := changesAcc s @
          [\<lparr>changeType = Delete, lineNumber = currentLineNumber s, content = drop 1 row\<rparr>],
       deletionsAcc := deletionsAcc s + 1\<rparr>"
  using hunkMatch_other[of "CHR ''-''" row]
  by (cases row) (auto simp: processLine_def isDeleteLine_def)

lemma processLine_context:
  "isContextLine row \<Longrightarrow> processLine s row =
     s\<lparr>changesAcc := changesAcc s @
          [\<lparr>changeType = Context, lineNumber = currentLineNumber s, content = drop 1 row\<rparr>],
       currentLineNumber := increment (currentLineNumber s)\<rparr>"
  using hunkMatch_other[of "CHR '' ''" row]
  by (cases row) (auto simp: processLine_def isContextLine_def)

lemma processLine_other:
  "\<not> isAddLine row \<Longrightarrow> \<not> isDeleteLine row \<Longrightarrow> \<not> isContextLine row \<Longrightarrow>
   changesAcc (processLine s row) = changesAcc s
   \<and> additionsAcc (processLine s row) = additionsAcc s
   \<and> deletionsAcc (processLine s row) = deletionsAcc s
   \<and> (hunkMatch row = None \<longrightarrow> processLine s row = s)"
  by (auto simp: processLine_def isAddLine_def isDeleteLine_def isContextLine_def
      split: option.splits)

lemma parseFileDiff_loop:
  "parseFileDiff block = Some fd \<Longrightarrow>
   changes fd = changesAcc (foldl processLine initLoop (splitNewline block))
   \<and> additions fd = additionsAcc (foldl processLine initLoop (splitNewline block))
   \<and> deletions fd = deletionsAcc (foldl processLine initLoop (splitNewline block))"
  by (auto simp: parseFileDiff_def Let_def split: option.splits)

text \<open>The block whose hunk starts at \<open>2 ^ 53 + 1\<close>, line by line.\<close>

lemma hugeStart_lines:
  "splitNewline hugeStart = [''a/x.ts b/x.ts'', ''@@ -1 +9007199254740993 @@'', ''+a'', ''+b'']"
  unfolding hugeStart_def by code_simp

lemma hugeStart_parsed: "parseFileDiff hugeStart \<noteq> None"
proof -
  have "filePathMatch ''a/x.ts b/x.ts'' = Some (''x.ts'', ''x.ts'')"
    by code_simp
  then show ?thesis
    by (simp add: parseFileDiff_def hugeStart_lines Let_def)
qed

lemma hugeStart_loop:
  "changesAcc (foldl processLine initLoop (splitNewline hugeStart)) =
     [\<lparr>changeType = Add, lineNumber = enat 9007199254740992, content = ''a''\<rparr>,
      \<lparr>changeType = Add, lineNumber = enat 9007199254740992, content = ''b''\<rparr>]"
proof -
  have h: "hunkHeader ''1'' None ''9007199254740993'' None [] = ''@@ -1 +9007199254740993 @@''"
    by (simp add: hunkHeader_def countStr_def)
  have n: "isNumber ''1''" "optNumber None" "isNumber ''9007199254740993''"
    by (simp_all add: isNumber_def optNumber_def isDigit_def)
  have 0: "processLine initLoop ''a/x.ts b/x.ts'' = initLoop"
    by code_simp
  have 1: "processLine initLoop ''@@ -1 +9007199254740993 @@''
             = initLoop\<lparr>currentLineNumber := enat 9007199254740992\<rparr>"
    using processLine_header[OF n(1) n(2) n(3) n(2), of initLoop "[]"]
    unfolding h parseInt_beyond .
  have a: "isAddLine ''+a''" "isAddLine ''+b''"
    by (simp_all add: isAddLine_def)
  have i: "changesAcc initLoop = []"
    by (simp add: initLoop_def)
  show ?thesis
    unfolding hugeStart_lines
    by (simp add: 0 1 processLine_add[OF a(1)] processLine_add[OF a(2)] increment_stuck i)
qed

text \<open>
  C1 (counterexample). The block \<open>a/x.ts b/x.ts\n@@ -1 +9007199254740993 @@\n+a\n+b\<close>:
  the header names the start \<open>2 ^ 53 + 1 = 9007199254740993\<close>, but the counter is set
  to \<open>9007199254740992\<close> and the two add lines leave it there, so both add changes are
  at \<open>9007199254740992\<close> instead of \<open>9007199254740993\<close> and \<open>9007199254740994\<close>.
\<close>

theorem hugeStart_counter_stuck:
  "parseFileDiff hugeStart \<noteq> None
   \<and> changes (the (parseFileDiff hugeStart))
       = [\<lparr>changeType = Add, lineNumber = enat 9007199254740992, content = ''a''\<rparr>,
          \<lparr>changeType = Add, lineNumber = enat 9007199254740992, content = ''b''\<rparr>]
   \<and> decimalValue ''9007199254740993'' = 9007199254740993"
proof -
  obtain fd where fd: "parseFileDiff hugeStart = Some fd"
    using hugeStart_parsed by blast
  have "decimalValue ''9007199254740993'' = 9007199254740993"
    by (simp add: decimalValue_def digitValue_def)
  then show ?thesis
    using parseFileDiff_loop[OF fd] by (simp add: fd hugeStart_loop)
qed

text \<open>
  C1 (amended). In every block the parser accepts, the changes are those the loop body
  collects over the lines of the block, and the loop body treats a line by its form. A
  hunk header \<open>@@ -<oldStart>[,<oldCount>] +<newStart>[,<newCount>] @@\<close> whose
  \<open><newStart>\<close> is below \<open>2 ^ 53\<close> sets the counter to \<open><newStart>\<close> and adds no change.
  A line starting with \<open>+\<close> but not \<open>+++\<close> adds an add change at the counter, and a
  line starting with a space adds a context change at the counter; after either, a
  counter below \<open>2 ^ 53\<close> is greater by one. A line starting with \<open>-\<close> but not \<open>---\<close>
  adds a delete change at the counter and leaves the counter. Any other line adds no
  change.
\<close>

theorem parseFileDiff_line_rules:
  "(parseFileDiff block = Some fd \<longrightarrow>
      changes fd = changesAcc (foldl processLine initLoop (splitNewline block)))
   \<and> (isNumber oldStart \<and> optNumber oldCount \<and> isNumber newStart \<and> optNumber newCount
        \<and> decimalValue newStart < safeLimit \<longrightarrow>
        currentLineNumber (processLine s (hunkHeader oldStart oldCount newStart newCount rest))
          = enat (decimalValue newStart)
        \<and> changesAcc (processLine s (hunkHeader oldStart oldCount newStart newCount rest))
          = changesAcc s)
   \<and> (isAddLine addLine \<longrightarrow>
        changesAcc (processLine s addLine) =
          changesAcc s @ [\<lparr>changeType = Add, lineNumber = currentLineNumber s,
                           content = drop 1 addLine\<rparr>])
   \<and> (isAddLine addLine \<and> currentLineNumber s = enat n \<and> n < safeLimit \<longrightarrow>
        currentLineNumber (processLine s addLine) = enat (n + 1))
   \<and> (isDeleteLine deleteLine \<longrightarrow>
        changesAcc (processLine s deleteLine) =
          changesAcc s @ [\<lparr>changeType = Delete, lineNumber = currentLineNumber s,
                           content = drop 1 deleteLine\<rparr>]
        \<and> currentLineNumber (processLine s deleteLine) = currentLineNumber s)
   \<and> (isContextLine contextLine \<longrightarrow>
        changesAcc (processLine s contextLine) =
          changesAcc s @ [\<lparr>changeType = Context, lineNumber = currentLineNumber s,
                           content = drop 1 contextLine\<rparr>])
   \<and> (isContextLine contextLine \<and> currentLineNumber s = enat n \<and> n < safeLimit \<longrightarrow>
        currentLineNumber (processLine s contextLine) = enat (n + 1))
   \<and> (\<not> isAddLine other \<and> \<not> isDeleteLine other \<and> \<not> isContextLine other \<longrightarrow>
        changesAcc (processLine s other) = changesAcc s)"
proof -
  have block: "changes fd = changesAcc (foldl processLine initLoop (splitNewline block))"
    if "parseFileDiff block = Some fd"
    using that by (simp add: parseFileDiff_loop)
  have header:
    "currentLineNumber (processLine s (hunkHeader oldStart oldCount newStart newCount rest))
          = enat (decimalValue newStart)
     \<and> changesAcc (processLine s (hunkHeader oldStart oldCount newStart newCount rest))
          = changesAcc s"
    if "isNumber oldStart \<and> optNumber oldCount \<and> isNumber newStart \<and> optNumber newCount
        \<and> decimalValue newStart < safeLimit"
    using that by (simp add: processLine_header parseInt_safe)
  have add1: "changesAcc (processLine s addLine) =
          changesAcc s @ [\<lparr>changeType = Add, lineNumber = currentLineNumber s,
                           content = drop 1 addLine\<rparr>]"
    if "isAddLine addLine"
    using that by (simp add: processLine_add)
  have add2: "currentLineNumber (processLine s addLine) = enat (n + 1)"
    if "isAddLine addLine \<and> currentLineNumber s = enat n \<and> n < safeLimit"
    using that increment_safe[of n] by (simp add: processLine_add)
  have del: "changesAcc (processLine s deleteLine) =
          changesAcc s @ [\<lparr>changeType = Delete, lineNumber = currentLineNumber s,
                           content = drop 1 deleteLine\<rparr>]
        \<and> currentLineNumber (processLine s deleteLine) = currentLineNumber s"
    if "isDeleteLine deleteLine"
    using that by (simp add: processLine_delete)
  have ctx1: "changesAcc (processLine s contextLine) =
          changesAcc s @ [\<lparr>changeType = Context, lineNumber = currentLineNumber s,
                           content = drop 1 contextLine\<rparr>]"
    if "isContextLine contextLine"
    using that by (simp add: processLine_context)
  have ctx2: "currentLineNumber (processLine s contextLine) = enat (n + 1)"
    if "isContextLine contextLine \<and> currentLineNumber s = enat n \<and> n < safeLimit"
    using that increment_safe[of n] by (simp add: processLine_context)
  have oth: "changesAcc (processLine s other) = changesAcc s"
    if "\<not> isAddLine other \<and> \<not> isDeleteLine other \<and> \<not> isContextLine other"
    using that by (simp add: processLine_other)
  from block header add1 add2 del ctx1 ctx2 oth show ?thesis
    by blast
qed

theorem parseFileDiff_line_rules_witness:
  "parseFileDiff ''a/x.ts b/x.ts\<newline>+a'' =
     Some \<lparr>path = ''x.ts'', oldPath = None, status = Modified, additions = 1, deletions = 0,
            changes = [\<lparr>changeType = Add, lineNumber = 0, content = ''a''\<rparr>]\<rparr>
   \<and> changesAcc (foldl processLine initLoop (splitNewline ''a/x.ts b/x.ts\<newline>+a''))
       = [\<lparr>changeType = Add, lineNumber = 0, content = ''a''\<rparr>]
   \<and> isNumber ''1'' \<and> optNumber (Some ''2'') \<and> isNumber ''14'' \<and> optNumber None
   \<and> decimalValue ''14'' = 14 \<and> (14 :: nat) < safeLimit
   \<and> currentLineNumber (processLine initLoop (hunkHeader ''1'' (Some ''2'') ''14'' None '' fn()''))
       = enat 14
   \<and> changesAcc (processLine initLoop (hunkHeader ''1'' (Some ''2'') ''14'' None '' fn()'')) = []
   \<and> isAddLine ''+added''
   \<and> changesAcc (processLine (initLoop\<lparr>currentLineNumber := enat 14\<rparr>) ''+added'')
       = [\<lparr>changeType = Add, lineNumber = enat 14, content = ''added''\<rparr>]
   \<and> currentLineNumber (processLine (initLoop\<lparr>currentLineNumber := enat 14\<rparr>) ''+added'')
       = enat 15
   \<and> isDeleteLine ''-old''
   \<and> changesAcc (processLine (initLoop\<lparr>currentLineNumber := enat 14\<rparr>) ''-old'')
       = [\<lparr>changeType = Delete, lineNumber = enat 14, content = ''old''\<rparr>]
   \<and> currentLineNumber (processLine (initLoop\<lparr>currentLineNumber := enat 14\<rparr>) ''-old'')
       = enat 14
   \<and> isContextLine '' line1''
   \<and> changesAcc (processLine (initLoop\<lparr>currentLineNumber := enat 14\<rparr>) '' line1'')
       = [\<lparr>changeType = Context, lineNumber = enat 14, content = ''line1''\<rparr>]
   \<and> currentLineNumber (processLine (initLoop\<lparr>currentLineNumber := enat 14\<rparr>) '' line1'')
       = enat 15
   \<and> \<not> isAddLine ''+++ b/x.ts'' \<and> \<not> isDeleteLine ''+++ b/x.ts''
   \<and> \<not> isContextLine ''+++ b/x.ts''
   \<and> changesAcc (processLine (initLoop\<lparr>currentLineNumber := enat 14\<rparr>) ''+++ b/x.ts'') = []"
proof -
  let ?fd = "\<lparr>path = ''x.ts'', oldPath = None, status = Modified, additions = 1, deletions = 0,
            changes = [\<lparr>changeType = Add, lineNumber = 0, content = ''a''\<rparr>]\<rparr>"
  let ?s = "initLoop\<lparr>currentLineNumber := enat 14\<rparr>"
  have p: "parseFileDiff ''a/x.ts b/x.ts\<newline>+a'' = Some ?fd"
    by code_simp
  have n: "isNumber ''1'' \<and> optNumber (Some ''2'') \<and> isNumber ''14'' \<and> optNumber None"
    by (simp add: isNumber_def optNumber_def isDigit_def)
  have v: "decimalValue ''14'' = 14" "(14 :: nat) < safeLimit"
    by (simp_all add: decimalValue_def digitValue_def safeLimit_def)
  have a: "isAddLine ''+added''" and d: "isDeleteLine ''-old''" and c: "isContextLine '' line1''"
    by (simp_all add: isAddLine_def isDeleteLine_def isContextLine_def)
  have o: "\<not> isAddLine ''+++ b/x.ts'' \<and> \<not> isDeleteLine ''+++ b/x.ts''
           \<and> \<not> isContextLine ''+++ b/x.ts''"
    by (simp add: isAddLine_def isDeleteLine_def isContextLine_def)
  show ?thesis
    using parseFileDiff_line_rules[where block = "''a/x.ts b/x.ts\<newline>+a''" and fd = ?fd
        and oldStart = "''1''" and oldCount = "Some ''2''" and newStart = "''14''"
        and newCount = None and s = initLoop and rest = "'' fn()''" and addLine = "''+added''"
        and n = 0 and deleteLine = "''-old''" and contextLine = "'' line1''"
        and other = "''+++ b/x.ts''"]
      parseFileDiff_line_rules[where block = "''a/x.ts b/x.ts\<newline>+a''" and fd = ?fd
        and oldStart = "''1''" and oldCount = "Some ''2''" and newStart = "''14''"
        and newCount = None and s = ?s and rest = "'' fn()''" and addLine = "''+added''"
        and n = 14 and deleteLine = "''-old''" and contextLine = "'' line1''"
        and other = "''+++ b/x.ts''"]
      p n v a d c o
    by (simp add: initLoop_def)
qed

subsection \<open>The example of the specification\<close>

text \<open>
  C2 (amended). The example \<open>diff --git a/x.ts b/x.ts\n@@ -1,2 +1,3 @@\n line1\n+added\n-old\n\<close>
  parses to exactly one FileDiff with path \<open>x.ts\<close>, status modified, one addition and
  one deletion, and three changes: the context change at line 1, the add change at
  line 2 and the delete change at line 3, the counter value after the add.
\<close>

theorem specExample_parse:
  "files (processDiff specExample None) =
     [\<lparr>path = ''x.ts'', oldPath = None, status = Modified, additions = 1, deletions = 1,
       changes = [\<lparr>changeType = Context, lineNumber = 1, content = ''line1''\<rparr>,
                  \<lparr>changeType = Add, lineNumber = 2, content = ''added''\<rparr>,
                  \<lparr>changeType = Delete, lineNumber = 3, content = ''old''\<rparr>]\<rparr>]"
  unfolding specExample_def by code_simp

text \<open>The line numbers 1, 2, 1 of the specification's example are not those of the parser.\<close>

theorem specExample_delete_line_not_1:
  "map lineNumber (changes (hd (files (processDiff specExample None)))) \<noteq> [1, 2, 1]"
  unfolding specExample_def by code_simp

subsection \<open>Counts\<close>

lemma countsAgree_step: "countsAgree s \<Longrightarrow> countsAgree (processLine s row)"
  by (auto simp: countsAgree_def processLine_def split: option.splits)

lemma countsAgree_foldl: "countsAgree s \<Longrightarrow> countsAgree (foldl processLine s ls)"
  by (induction ls arbitrary: s) (auto simp: countsAgree_step)

lemma parseFileDiff_counts:
  assumes "parseFileDiff block = Some fd"
  shows "additions fd = length (filter (\<lambda>c. changeType c = Add) (changes fd))
       \<and> deletions fd = length (filter (\<lambda>c. changeType c = Delete) (changes fd))"
proof -
  have "countsAgree (foldl processLine initLoop (splitNewline block))"
    by (rule countsAgree_foldl) (simp add: countsAgree_def initLoop_def)
  then show ?thesis
    using parseFileDiff_loop[OF assms] by (simp add: countsAgree_def)
qed

lemma foldl_processBlock:
  "foldl processBlock (fs, ta, td) blocks =
     (fs @ retained blocks,
      ta + sum_list (map additions (retained blocks)),
      td + sum_list (map deletions (retained blocks)))"
proof (induction blocks arbitrary: fs ta td)
  case Nil
  then show ?case
    by (simp add: retained_def List.map_filter_simps)
next
  case (Cons b bs)
  show ?case
  proof (cases "parseFileDiff b")
    case None
    then show ?thesis
      using Cons[of fs ta td]
      by (simp add: processBlock_def retained_def List.map_filter_simps)
  next
    case (Some fd)
    then show ?thesis
      using Cons[of fs ta td] Cons[of "fs @ [fd]" "ta + additions fd" "td + deletions fd"]
      by (simp add: processBlock_def retained_def List.map_filter_simps)
  qed
qed

lemma processDiff_fields:
  "files (processDiff txt smry) = retained (blocksOf txt)"
  "totalAdditions (processDiff txt smry) = sum_list (map additions (retained (blocksOf txt)))"
  "totalDeletions (processDiff txt smry) = sum_list (map deletions (retained (blocksOf txt)))"
  by (simp_all add: processDiff_def blocksOf_def foldl_processBlock Let_def)

lemma retained_parsed:
  "fd \<in> set (retained blocks) \<Longrightarrow> \<exists>b \<in> set blocks. parseFileDiff b = Some fd"
  by (auto simp: retained_def List.map_filter_def)

text \<open>
  C3. For every diff text (with or without an external summary), each FileDiff of the
  result has additions equal to the number of its add changes and deletions equal to the
  number of its delete changes; the files of the result are the parsed blocks with a
  supported extension, in order, and totalAdditions and totalDeletions are the sums of
  additions and deletions over these files.
\<close>

theorem processDiff_counts_consistent:
  "(\<forall>fd \<in> set (files (processDiff txt smry)).
       additions fd = length (filter (\<lambda>c. changeType c = Add) (changes fd))
     \<and> deletions fd = length (filter (\<lambda>c. changeType c = Delete) (changes fd)))
   \<and> files (processDiff txt smry) = retained (blocksOf txt)
   \<and> totalAdditions (processDiff txt smry)
       = sum_list (map additions (files (processDiff txt smry)))
   \<and> totalDeletions (processDiff txt smry)
       = sum_list (map deletions (files (processDiff txt smry)))"
  using retained_parsed parseFileDiff_counts
  by (fastforce simp: processDiff_fields)

theorem processDiff_counts_consistent_witness:
  "map path (files (processDiff mixedDiff None)) = [''x.ts'']
   \<and> hd (files (processDiff mixedDiff None)) \<in> set (files (processDiff mixedDiff None))
   \<and> additions (hd (files (processDiff mixedDiff None))) = 1
   \<and> length (filter (\<lambda>c. changeType c = Add) (changes (hd (files (processDiff mixedDiff None)))))
       = 1
   \<and> deletions (hd (files (processDiff mixedDiff None))) = 1
   \<and> length (filter (\<lambda>c. changeType c = Delete)
         (changes (hd (files (processDiff mixedDiff None))))) = 1
   \<and> totalAdditions (processDiff mixedDiff None) = 1
   \<and> totalDeletions (processDiff mixedDiff None) = 1"
proof -
  have f: "map path (files (processDiff mixedDiff None)) = [''x.ts'']"
    unfolding mixedDiff_def by code_simp
  have a: "map additions (files (processDiff mixedDiff None)) = [1]"
    unfolding mixedDiff_def by code_simp
  have d: "map deletions (files (processDiff mixedDiff None)) = [1]"
    unfolding mixedDiff_def by code_simp
  from f have m: "hd (files (processDiff mixedDiff None)) \<in> set (files (processDiff mixedDiff None))"
    by (cases "files (processDiff mixedDiff None)") auto
  from a have a1: "additions (hd (files (processDiff mixedDiff None))) = 1"
    by (cases "files (processDiff mixedDiff None)") auto
  from d have d1: "deletions (hd (files (processDiff mixedDiff None))) = 1"
    by (cases "files (processDiff mixedDiff None)") auto
  show ?thesis
    using processDiff_counts_consistent[of mixedDiff None] f a d m a1 d1 by auto
qed

subsection \<open>Line numbers\<close>

lemma monotone_step:
  assumes "monotone s"
    and "case hunkMatch row of None \<Rightarrow> True | Some g1 \<Rightarrow> currentLineNumber s \<le> parseInt g1"
    and "currentLineNumber s = enat c" and "c < safeLimit"
  shows "monotone (processLine s row)"
proof -
  have "currentLineNumber s < increment (currentLineNumber s)"
    using assms(3,4) by (simp add: increment_safe)
  with assms(1,2) show ?thesis
    by (auto simp: monotone_def processLine_def sorted_wrt_append addOrContext_def
        split: option.splits intro: less_imp_le order.strict_trans order.trans
        order.strict_trans2 dest: bspec)
qed

text \<open>The counter after a line, when the bound \<open>b\<close> on what is left still holds.\<close>

lemma counter_step:
  assumes "currentLineNumber s = enat c" and "c + 1 < safeLimit"
    and "case hunkMatch row of None \<Rightarrow> True | Some g1 \<Rightarrow> decimalValue g1 + b < safeLimit"
  shows "\<exists>c'. currentLineNumber (processLine s row) = enat c'
              \<and> (c' \<le> c + 1 \<or> c' + b < safeLimit)"
proof (cases "hunkMatch row")
  case (Some g1)
  with assms(3) have "decimalValue g1 + b < safeLimit"
    by simp
  then show ?thesis
    using Some by (simp add: processLine_def parseInt_safe)
next
  case None
  from assms(2) have "increment (enat c) = enat (c + 1)"
    by (simp add: increment_safe)
  with None assms(1) show ?thesis
    by (simp add: processLine_def)
qed

lemma monotone_foldl:
  "monotone s \<Longrightarrow> hunksAscending s ls \<Longrightarrow> currentLineNumber s = enat c \<Longrightarrow>
   c + length ls < safeLimit \<Longrightarrow> length ls \<le> b \<Longrightarrow>
   list_all (\<lambda>l. case hunkMatch l of None \<Rightarrow> True
                  | Some g1 \<Rightarrow> decimalValue g1 + b < safeLimit) ls \<Longrightarrow>
   monotone (foldl processLine s ls)"
proof (induction ls arbitrary: s c)
  case Nil
  then show ?case
    by simp
next
  case (Cons l ls)
  from Cons.prems(4) have c: "c + 1 < safeLimit"
    by simp
  from Cons.prems(6) have
    h: "case hunkMatch l of None \<Rightarrow> True | Some g1 \<Rightarrow> decimalValue g1 + b < safeLimit"
    by simp
  from Cons.prems(2) have
    a: "case hunkMatch l of None \<Rightarrow> True | Some g1 \<Rightarrow> currentLineNumber s \<le> parseInt g1"
    by simp
  have m: "monotone (processLine s l)"
    using monotone_step[OF Cons.prems(1) a Cons.prems(3)] c by simp
  obtain c' where c': "currentLineNumber (processLine s l) = enat c'"
    and b: "c' \<le> c + 1 \<or> c' + b < safeLimit"
    using counter_step[OF Cons.prems(3) c h] by blast
  from b Cons.prems(4,5) have "c' + length ls < safeLimit"
    by auto
  moreover from Cons.prems(2) have "hunksAscending (processLine s l) ls"
    by simp
  moreover from Cons.prems(5) have "length ls \<le> b"
    by simp
  moreover from Cons.prems(6) have
    "list_all (\<lambda>l. case hunkMatch l of None \<Rightarrow> True
                    | Some g1 \<Rightarrow> decimalValue g1 + b < safeLimit) ls"
    by simp
  ultimately have "monotone (foldl processLine (processLine s l) ls)"
    using Cons.IH[OF m _ c'] by blast
  then show ?case
    by simp
qed

text \<open>
  C8 (amended). In every block that stays within the safe integers and whose hunk
  headers never set the counter below the value it has reached, the line numbers of the
  add and context changes of the FileDiff are strictly increasing and the line numbers
  of all its changes are non-decreasing. In every block, each add or context line
  advances a counter below \<open>2 ^ 53\<close> by exactly one, and a delete line leaves the
  counter.
\<close>

theorem ascending_hunks_line_numbers:
  "(parseFileDiff block = Some fd \<and> hunksAscending initLoop (splitNewline block)
      \<and> withinSafeIntegers (splitNewline block) \<longrightarrow>
      sorted_wrt (<) (lineNumbersOf fd) \<and> sorted_wrt (\<le>) (map lineNumber (changes fd)))
   \<and> ((isAddLine advancing \<or> isContextLine advancing) \<and> currentLineNumber s = enat n
        \<and> n < safeLimit \<longrightarrow>
        currentLineNumber (processLine s advancing) = enat (n + 1))
   \<and> (isDeleteLine deleting \<longrightarrow>
        currentLineNumber (processLine s deleting) = currentLineNumber s)"
proof -
  have blockPart: "sorted_wrt (<) (lineNumbersOf fd) \<and> sorted_wrt (\<le>) (map lineNumber (changes fd))"
    if h: "parseFileDiff block = Some fd \<and> hunksAscending initLoop (splitNewline block)
           \<and> withinSafeIntegers (splitNewline block)"
  proof -
    let ?ls = "splitNewline block"
    have "monotone initLoop"
      by (simp add: monotone_def initLoop_def)
    moreover have "currentLineNumber initLoop = enat 0"
      by (simp add: initLoop_def zero_enat_def)
    moreover from h have "0 + length ?ls < safeLimit"
      by (simp add: withinSafeIntegers_def isSafe_iff)
    moreover from h have
      "list_all (\<lambda>l. case hunkMatch l of None \<Rightarrow> True
                      | Some g1 \<Rightarrow> decimalValue g1 + length ?ls < safeLimit) ?ls"
      by (auto simp: withinSafeIntegers_def isSafe_iff list_all_iff split: option.splits)
    ultimately have "monotone (foldl processLine initLoop ?ls)"
      using h monotone_foldl[of initLoop ?ls 0 "length ?ls"] by simp
    with h parseFileDiff_loop[of block fd] show ?thesis
      by (simp add: monotone_def lineNumbersOf_def)
  qed
  have advance: "currentLineNumber (processLine s advancing) = enat (n + 1)"
    if "(isAddLine advancing \<or> isContextLine advancing) \<and> currentLineNumber s = enat n
        \<and> n < safeLimit"
    using that increment_safe[of n] by (auto simp: processLine_add processLine_context)
  have stay: "currentLineNumber (processLine s deleting) = currentLineNumber s"
    if "isDeleteLine deleting"
    using that by (simp add: processLine_delete)
  from blockPart advance stay show ?thesis
    by blast
qed

theorem ascending_hunks_line_numbers_witness:
  "hunksAscending initLoop (splitNewline twoHunks)
   \<and> withinSafeIntegers (splitNewline twoHunks)
   \<and> map lineNumber (changes (the (parseFileDiff twoHunks))) = [1, 2, 2, 9, 10]
   \<and> lineNumbersOf (the (parseFileDiff twoHunks)) = [1, 2, 9, 10]
   \<and> sorted_wrt (<) (lineNumbersOf (the (parseFileDiff twoHunks)))
   \<and> isAddLine ''+c'' \<and> currentLineNumber (processLine initLoop ''+c'') = enat 1
   \<and> isDeleteLine ''-b'' \<and> currentLineNumber (processLine initLoop ''-b'') = enat 0"
proof -
  have p: "parseFileDiff twoHunks \<noteq> None"
    unfolding twoHunks_def by code_simp
  then obtain fd where fd: "parseFileDiff twoHunks = Some fd"
    by blast
  have h: "hunksAscending initLoop (splitNewline twoHunks)"
    unfolding twoHunks_def by code_simp
  have w: "withinSafeIntegers (splitNewline twoHunks)"
    unfolding twoHunks_def by code_simp
  have n: "map lineNumber (changes (the (parseFileDiff twoHunks))) = [1, 2, 2, 9, 10]"
    unfolding twoHunks_def by code_simp
  have m: "lineNumbersOf (the (parseFileDiff twoHunks)) = [1, 2, 9, 10]"
    unfolding twoHunks_def by code_simp
  have a: "isAddLine ''+c''" and d: "isDeleteLine ''-b''"
    by (simp_all add: isAddLine_def isDeleteLine_def)
  have z: "currentLineNumber initLoop = enat 0" "(0 :: nat) < safeLimit"
    by (simp_all add: initLoop_def zero_enat_def safeLimit_def)
  show ?thesis
    using ascending_hunks_line_numbers[where block = twoHunks and fd = fd
        and advancing = "''+c''" and s = initLoop and n = 0 and deleting = "''-b''"]
      fd h w n m a d z
    by (simp add: zero_enat_def)
qed

text \<open>
  A block whose second hunk header names a lower start: the add changes are at lines 5
  and 1.
\<close>

theorem descendingHunks_not_increasing:
  "\<not> sorted_wrt (<) (lineNumbersOf (hd (files (processDiff descendingHunks None))))"
  unfolding descendingHunks_def by code_simp

section \<open>Findings (agents/types.ts) and the parser of LLM responses (agents/base-agent.ts)\<close>

text \<open>
  A thrown value: an \<open>Error\<close> with its message (a \<open>TypeError\<close> and a
  \<open>SyntaxError\<close> are such errors), or a value that is no \<open>Error\<close>.
\<close>

datatype error = Error string | TypeError string | SyntaxError string | NonError

text \<open>
  What \<open>JSON.parse\<close> returns. An object is the list of its own properties, each
  key once; a property read is a lookup. The payload of a number is never inspected
  by the code modelled here.
\<close>

datatype json =
    JNull
  | JBool bool
  | JNumber int
  | JString string
  | JArray "json list"
  | JObject "(string \<times> json) list"

text \<open>
  The static type asks for a severity among four and a type among three, but the values
  come from \<open>JSON.parse\<close> and are checked to be strings only, so both are strings here.
\<close>

record AgentFinding =
  type :: string
  severity :: string
  category :: string
  message :: string
  "file" :: string
  line :: "json option"
  suggestion :: "json option"
  code :: "json option"

text \<open>\<open>typeof v === "string"\<close> for a property that may be absent.\<close>

fun typeofString :: "json option \<Rightarrow> bool" where
  "typeofString (Some (JString s)) = True"
| "typeofString v = False"

text \<open>
  \<open>isValidFinding\<close>: \<open>null\<close> is falsy; numbers, strings and booleans are not objects;
  an array is an object without the five properties.
\<close>

fun isValidFinding :: "json \<Rightarrow> bool" where
  "isValidFinding (JObject props) =
     (typeofString (map_of props ''type'')
      \<and> typeofString (map_of props ''severity'')
      \<and> typeofString (map_of props ''category'')
      \<and> typeofString (map_of props ''message'')
      \<and> typeofString (map_of props ''file''))"
| "isValidFinding v = False"

text \<open>
  The parsed object read as an \<open>AgentFinding\<close> (the type guard is a cast: the object
  itself is returned). Properties outside the interface are not read anywhere.
\<close>

fun stringOf :: "json option \<Rightarrow> string" where
  "stringOf (Some (JString s)) = s"
| "stringOf v = []"

fun propertiesOf :: "json \<Rightarrow> (string \<times> json) list" where
  "propertiesOf (JObject props) = props"
| "propertiesOf v = []"

definition asFinding :: "json \<Rightarrow> AgentFinding" where
  "asFinding v =
     (let props = propertiesOf v in
      \<lparr>type = stringOf (map_of props ''type''),
       severity = stringOf (map_of props ''severity''),
       category = stringOf (map_of props ''category''),
       message = stringOf (map_of props ''message''),
       file = stringOf (map_of props ''file''),
       line = map_of props ''line'',
       suggestion = map_of props ''suggestion'',
       code = map_of props ''code''\<rparr>)"

text \<open>
  \<open>response.match(/\[[\s\S]*\]/)\<close>: from the first \<open>[\<close> to the last \<open>]\<close> behind it.
\<close>

definition jsonMatch :: "string \<Rightarrow> string option" where
  "jsonMatch response =
     (let fromBracket = dropWhile (\<lambda>c. c \<noteq> CHR ''['') response;
          toBracket = rev (dropWhile (\<lambda>c. c \<noteq> CHR '']'') (rev fromBracket))
      in if toBracket = [] then None else Some toBracket)"

text \<open>
  \<open>parseFindings\<close>. \<open>JSON.parse\<close> belongs to the platform and is a parameter: it
  returns a value or throws, and the \<open>catch\<close> turns the throw into the empty list.
\<close>

definition parseFindings :: "(string \<Rightarrow> error + json) \<Rightarrow> string \<Rightarrow> AgentFinding list" where
  "parseFindings JSON_parse response =
     (case jsonMatch response of
        None \<Rightarrow> []
      | Some jsonText \<Rightarrow>
          (case JSON_parse jsonText of
             Inl e \<Rightarrow> []
           | Inr (JArray findings) \<Rightarrow> map asFinding (filter isValidFinding findings)
           | Inr v \<Rightarrow> []))"

text \<open>
  A response whose only candidate has an empty message and an empty file, and
  \<open>JSON.parse\<close> on that text.
\<close>

definition quoted :: "string \<Rightarrow> string" where
  "quoted s = CHR 0x22 # s @ [CHR 0x22]"

definition emptyFieldsText :: string where
  "emptyFieldsText =
     ''[{'' @ quoted ''type'' @ '':'' @ quoted ''info'' @ '',''
       @ quoted ''severity'' @ '':'' @ quoted ''low'' @ '',''
       @ quoted ''category'' @ '':'' @ quoted ''Style'' @ '',''
       @ quoted ''message'' @ '':'' @ quoted [] @ '',''
       @ quoted ''file'' @ '':'' @ quoted [] @ ''}]''"

definition emptyFieldsResponse :: string where
  "emptyFieldsResponse = ''Here are the findings: '' @ emptyFieldsText"

definition emptyFieldsJSON :: json where
  "emptyFieldsJSON =
     JArray [JObject [(''type'', JString ''info''), (''severity'', JString ''low''),
                      (''category'', JString ''Style''), (''message'', JString []),
                      (''file'', JString [])]]"

definition parseOnly :: "string \<Rightarrow> json \<Rightarrow> string \<Rightarrow> error + json" where
  "parseOnly jsonText v s = (if s = jsonText then Inr v else Inl (SyntaxError ''Unexpected token''))"

section \<open>Properties of the parser of LLM responses\<close>

lemma typeofString_iff: "typeofString v \<longleftrightarrow> (\<exists>s. v = Some (JString s))"
  by (cases v rule: typeofString.cases) auto

lemma isValidFinding_iff:
  "isValidFinding v \<longleftrightarrow>
     (\<exists>props t s c m f.
        v = JObject props
        \<and> map_of props ''type'' = Some (JString t)
        \<and> map_of props ''severity'' = Some (JString s)
        \<and> map_of props ''category'' = Some (JString c)
        \<and> map_of props ''message'' = Some (JString m)
        \<and> map_of props ''file'' = Some (JString f))"
  by (cases v) (auto simp: typeofString_iff)

lemma parseFindings_parsed:
  "jsonMatch response = Some jsonText \<Longrightarrow> JSON_parse jsonText = Inr (JArray candidates) \<Longrightarrow>
   parseFindings JSON_parse response = map asFinding (filter isValidFinding candidates)"
  by (simp add: parseFindings_def)

lemma parseFindings_origin:
  assumes "finding \<in> set (parseFindings JSON_parse response)"
  shows "\<exists>jsonText candidates v.
           jsonMatch response = Some jsonText \<and> JSON_parse jsonText = Inr (JArray candidates)
           \<and> v \<in> set candidates \<and> isValidFinding v \<and> finding = asFinding v"
proof (cases "jsonMatch response")
  case None
  with assms show ?thesis
    by (simp add: parseFindings_def)
next
  case (Some jsonText)
  show ?thesis
  proof (cases "JSON_parse jsonText")
    case (Inl e)
    with Some assms show ?thesis
      by (simp add: parseFindings_def)
  next
    case (Inr parsed)
    show ?thesis
    proof (cases parsed)
      case (JArray candidates)
      with Some Inr assms have "finding \<in> asFinding ` {v \<in> set candidates. isValidFinding v}"
        by (simp add: parseFindings_def)
      with Some Inr JArray show ?thesis
        by blast
    qed (use Some Inr assms in \<open>simp_all add: parseFindings_def\<close>)
  qed
qed

text \<open>
  C7 (amended). Every finding in the list returned by \<open>parseFindings\<close> is an element of
  the parsed JSON array that is an object whose type, severity, category, message and
  file properties are strings, and it carries these strings; a candidate that is not such
  an object is discarded, and one that is such an object is kept, whether or not its file
  or message is the empty string.
\<close>

theorem parseFindings_checks_types_only:
  "(\<forall>finding \<in> set (parseFindings JSON_parse response).
      \<exists>jsonText candidates props.
        jsonMatch response = Some jsonText \<and> JSON_parse jsonText = Inr (JArray candidates)
        \<and> JObject props \<in> set candidates
        \<and> map_of props ''type'' = Some (JString (type finding))
        \<and> map_of props ''severity'' = Some (JString (severity finding))
        \<and> map_of props ''category'' = Some (JString (category finding))
        \<and> map_of props ''message'' = Some (JString (message finding))
        \<and> map_of props ''file'' = Some (JString (file finding)))
   \<and> (jsonMatch response = Some jsonText' \<and> JSON_parse jsonText' = Inr (JArray candidates')
        \<and> JObject props' \<in> set candidates'
        \<and> map_of props' ''type'' = Some (JString t)
        \<and> map_of props' ''severity'' = Some (JString s)
        \<and> map_of props' ''category'' = Some (JString c)
        \<and> map_of props' ''message'' = Some (JString m)
        \<and> map_of props' ''file'' = Some (JString f)
        \<longrightarrow> asFinding (JObject props') \<in> set (parseFindings JSON_parse response)
            \<and> message (asFinding (JObject props')) = m
            \<and> file (asFinding (JObject props')) = f)"
proof -
  have origin: "\<exists>jsonText candidates props.
        jsonMatch response = Some jsonText \<and> JSON_parse jsonText = Inr (JArray candidates)
        \<and> JObject props \<in> set candidates
        \<and> map_of props ''type'' = Some (JString (type finding))
        \<and> map_of props ''severity'' = Some (JString (severity finding))
        \<and> map_of props ''category'' = Some (JString (category finding))
        \<and> map_of props ''message'' = Some (JString (message finding))
        \<and> map_of props ''file'' = Some (JString (file finding))"
    if "finding \<in> set (parseFindings JSON_parse response)" for finding
  proof -
    from parseFindings_origin[OF that] obtain jsonText candidates v where
      h: "jsonMatch response = Some jsonText" "JSON_parse jsonText = Inr (JArray candidates)"
         "v \<in> set candidates" "isValidFinding v" "finding = asFinding v"
      by blast
    from h(4) obtain props t s c m f where
      p: "v = JObject props" "map_of props ''type'' = Some (JString t)"
         "map_of props ''severity'' = Some (JString s)"
         "map_of props ''category'' = Some (JString c)"
         "map_of props ''message'' = Some (JString m)"
         "map_of props ''file'' = Some (JString f)"
      unfolding isValidFinding_iff by blast
    have "type finding = t \<and> severity finding = s \<and> category finding = c
          \<and> message finding = m \<and> file finding = f"
      using h(5) p by (simp add: asFinding_def)
    with h p show ?thesis
      by blast
  qed
  have kept: "asFinding (JObject props') \<in> set (parseFindings JSON_parse response)
            \<and> message (asFinding (JObject props')) = m
            \<and> file (asFinding (JObject props')) = f"
    if k: "jsonMatch response = Some jsonText' \<and> JSON_parse jsonText' = Inr (JArray candidates')
        \<and> JObject props' \<in> set candidates'
        \<and> map_of props' ''type'' = Some (JString t)
        \<and> map_of props' ''severity'' = Some (JString s)
        \<and> map_of props' ''category'' = Some (JString c)
        \<and> map_of props' ''message'' = Some (JString m)
        \<and> map_of props' ''file'' = Some (JString f)"
  proof -
    from k have "isValidFinding (JObject props')"
      by simp
    with k have "asFinding (JObject props') \<in> set (parseFindings JSON_parse response)"
      by (auto simp: parseFindings_parsed)
    with k show ?thesis
      by (simp add: asFinding_def)
  qed
  from origin kept show ?thesis
    by blast
qed

lemma emptyFields_match: "jsonMatch emptyFieldsResponse = Some emptyFieldsText"
  unfolding emptyFieldsResponse_def emptyFieldsText_def quoted_def by code_simp

lemma emptyFields_parse:
  "parseFindings (parseOnly emptyFieldsText emptyFieldsJSON) emptyFieldsResponse =
     [\<lparr>type = ''info'', severity = ''low'', category = ''Style'', message = [], file = [],
       line = None, suggestion = None, code = None\<rparr>]"
  by (simp add: parseFindings_def emptyFields_match parseOnly_def emptyFieldsJSON_def
      asFinding_def)

theorem parseFindings_checks_types_only_witness:
  "parseFindings (parseOnly emptyFieldsText emptyFieldsJSON) emptyFieldsResponse \<noteq> []
   \<and> jsonMatch emptyFieldsResponse = Some emptyFieldsText
   \<and> parseOnly emptyFieldsText emptyFieldsJSON emptyFieldsText = Inr emptyFieldsJSON
   \<and> map type (parseFindings (parseOnly emptyFieldsText emptyFieldsJSON) emptyFieldsResponse)
       = [''info'']
   \<and> asFinding (JObject [(''type'', JString ''info''), (''severity'', JString ''low''),
                          (''category'', JString ''Style''), (''message'', JString []),
                          (''file'', JString [])])
       \<in> set (parseFindings (parseOnly emptyFieldsText emptyFieldsJSON) emptyFieldsResponse)"
proof -
  have j: "parseOnly emptyFieldsText emptyFieldsJSON emptyFieldsText = Inr emptyFieldsJSON"
    by (simp add: parseOnly_def)
  show ?thesis
    using parseFindings_checks_types_only[of "parseOnly emptyFieldsText emptyFieldsJSON"
        emptyFieldsResponse emptyFieldsText
        "[JObject [(''type'', JString ''info''), (''severity'', JString ''low''),
                   (''category'', JString ''Style''), (''message'', JString []),
                   (''file'', JString [])]]"
        "[(''type'', JString ''info''), (''severity'', JString ''low''),
          (''category'', JString ''Style''), (''message'', JString []),
          (''file'', JString [])]" "''info''" "''low''" "''Style''" "[]" "[]"]
      emptyFields_match j emptyFields_parse
    by (simp add: emptyFieldsJSON_def)
qed

text \<open>
  A candidate with an empty message and an empty file is returned by the producer: the
  returned list has a finding whose file and message are empty.
\<close>

theorem parseFindings_keeps_empty_fields:
  "map file (parseFindings (parseOnly emptyFieldsText emptyFieldsJSON) emptyFieldsResponse) = [[]]
   \<and> map message (parseFindings (parseOnly emptyFieldsText emptyFieldsJSON) emptyFieldsResponse)
       = [[]]"
  by (simp add: emptyFields_parse)

section \<open>Agents and pipeline (agents/*.ts, pipeline/executor.ts, reporters/types.ts)\<close>

subsection \<open>Types\<close>

record TokenUsage =
  promptTokens :: nat
  completionTokens :: nat
  totalTokens :: nat

record AgentResult =
  agentName :: string
  findings :: "AgentFinding list"
  executionTime :: int
  tokenUsage :: "TokenUsage option"

record AgentContext =
  diff :: ParsedDiff
  previousFindings :: "AgentFinding list option"

record LLMResponse =
  content :: string
  usage :: "TokenUsage option"

text \<open>
  The three agents appear as the keys \<open>codeReview\<close>, \<open>security\<close> and
  \<open>performance\<close> of several objects: the enabled flags of the configuration, the
  results of a run, the counts of a summary, the finding lists of a report. One record
  type carries the three keys; a report is this record with its further fields.
\<close>

record 'a PerAgent =
  codeReview :: 'a
  security :: 'a
  performance :: 'a

record LLMConfig =
  provider :: string
  apiKey :: string
  model :: "string option"

record OutputConfig =
  formats :: "string list"
  directory :: string

record PipelineConfig =
  llm :: LLMConfig
  agents :: "bool PerAgent"
  "output" :: OutputConfig

record ReportSummary =
  totalFindings :: nat
  critical :: nat
  high :: nat
  medium :: nat
  low :: nat
  byAgent :: "nat PerAgent"

record ReportTokenUsage =
  total :: nat
  byAgent :: "nat option PerAgent"

record Report = "AgentFinding list PerAgent" +
  summary :: ReportSummary
  generatedAt :: int
  executionTime :: int
  tokenUsage :: "ReportTokenUsage option"

record Output =
  format :: string
  path :: string

record PipelineResult =
  report :: "Report option"
  outputs :: "Output list"
  success :: bool
  error :: "string option"

subsection \<open>The world outside\<close>

text \<open>
  What the agents and the executor call outside the repository's own logic, as functions
  on a state of the world \<open>'w\<close>. Each returns its value (or the error it throws) and
  the world after the call.
  \<^item> \<open>now\<close>: \<open>Date.now()\<close> and \<open>new Date()\<close>, a reading of the clock.
  \<^item> \<open>construct\<close>: \<open>createLLMProvider\<close> and the three agent constructors; they
    instantiate the provider's client and ESLint.
  \<^item> \<open>chat\<close>: \<open>llm.chat\<close> on the prompt of the named agent. The prompt is a text
    built from the context and the agent's preliminary findings, so the call is
    given these.
  \<^item> \<open>runStaticAnalysis\<close>, \<open>runASTAnalysis\<close>: the ESLint and syntax tree passes of
    the security and performance agents.
  \<^item> \<open>JSON_parse\<close>: \<open>JSON.parse\<close>.
  \<^item> \<open>mkdirSync\<close>, \<open>writeFileSync\<close>, \<open>joinPath\<close>: the file system calls.
  \<^item> \<open>timestamp\<close>: \<open>new Date().toISOString().replace(/[:.]/g, "-")\<close>.
  \<^item> \<open>generate\<close>: the reporter of a format on a report.
\<close>

record 'w Env =
  now :: "'w \<Rightarrow> int \<times> 'w"
  construct :: "PipelineConfig \<Rightarrow> 'w \<Rightarrow> (error + unit) \<times> 'w"
  chat :: "string \<Rightarrow> AgentContext \<Rightarrow> AgentFinding list \<Rightarrow> 'w \<Rightarrow> (error + LLMResponse) \<times> 'w"
  runStaticAnalysis :: "AgentContext \<Rightarrow> 'w \<Rightarrow> (error + AgentFinding list) \<times> 'w"
  runASTAnalysis :: "AgentContext \<Rightarrow> 'w \<Rightarrow> (error + AgentFinding list) \<times> 'w"
  JSON_parse :: "string \<Rightarrow> error + json"
  mkdirSync :: "string \<Rightarrow> 'w \<Rightarrow> (error + unit) \<times> 'w"
  writeFileSync :: "string \<Rightarrow> string \<Rightarrow> 'w \<Rightarrow> (error + unit) \<times> 'w"
  joinPath :: "string \<Rightarrow> string \<Rightarrow> string"
  timestamp :: "'w \<Rightarrow> string \<times> 'w"
  generate :: "string \<Rightarrow> Report \<Rightarrow> 'w \<Rightarrow> (error + string) \<times> 'w"

subsection \<open>The agents\<close>

text \<open>
  The body of the \<open>try\<close> block of each \<open>analyze\<close>: the findings and the token usage
  it arrives at, or the error thrown inside it.
\<close>

definition codeReviewTry ::
  "'w Env \<Rightarrow> AgentContext \<Rightarrow> 'w \<Rightarrow> (error + AgentFinding list \<times> TokenUsage option) \<times> 'w" where
  "codeReviewTry env context w =
     (case chat env ''Code Review'' context [] w of
        (Inl e, w1) \<Rightarrow> (Inl e, w1)
      | (Inr response, w1) \<Rightarrow>
          (Inr (parseFindings (JSON_parse env) (LLMResponse.content response), usage response), w1))"

definition securityTry ::
  "'w Env \<Rightarrow> AgentContext \<Rightarrow> 'w \<Rightarrow> (error + AgentFinding list \<times> TokenUsage option) \<times> 'w" where
  "securityTry env context w =
     (case runStaticAnalysis env context w of
        (Inl e, w1) \<Rightarrow> (Inl e, w1)
      | (Inr staticFindings, w1) \<Rightarrow>
          (case chat env ''Security'' context staticFindings w1 of
             (Inl e, w2) \<Rightarrow> (Inl e, w2)
           | (Inr response, w2) \<Rightarrow>
               (Inr (staticFindings
                       @ parseFindings (JSON_parse env) (LLMResponse.content response),
                     usage response), w2)))"

definition performanceTry ::
  "'w Env \<Rightarrow> AgentContext \<Rightarrow> 'w \<Rightarrow> (error + AgentFinding list \<times> TokenUsage option) \<times> 'w" where
  "performanceTry env context w =
     (case runASTAnalysis env context w of
        (Inl e, w1) \<Rightarrow> (Inl e, w1)
      | (Inr astFindings, w1) \<Rightarrow>
          (case chat env ''Performance'' context astFindings w1 of
             (Inl e, w2) \<Rightarrow> (Inl e, w2)
           | (Inr response, w2) \<Rightarrow>
               (Inr (astFindings
                       @ parseFindings (JSON_parse env) (LLMResponse.content response),
                     usage response), w2)))"

text \<open>
  \<open>analyze\<close>: the start time is read, the \<open>try\<close> block runs, and either its
  \<open>return\<close> or the \<open>catch\<close> reads the clock again and builds the result.
\<close>

definition analyzeResult ::
  "'w Env \<Rightarrow> string \<Rightarrow> int \<Rightarrow> (error + AgentFinding list \<times> TokenUsage option) \<times> 'w
     \<Rightarrow> AgentResult \<times> 'w" where
  "analyzeResult env name startTime tried =
     (case tried of
        (Inr (allFindings, tokens), w1) \<Rightarrow>
          (case now env w1 of
             (t, w2) \<Rightarrow>
               (\<lparr>agentName = name, findings = allFindings,
                 executionTime = t - startTime, tokenUsage = tokens\<rparr>, w2))
      | (Inl e, w1) \<Rightarrow>
          (case now env w1 of
             (t, w2) \<Rightarrow>
               (\<lparr>agentName = name, findings = [],
                 executionTime = t - startTime, tokenUsage = None\<rparr>, w2)))"

definition analyzeCodeReview :: "'w Env \<Rightarrow> AgentContext \<Rightarrow> 'w \<Rightarrow> AgentResult \<times> 'w" where
  "analyzeCodeReview env context w =
     (case now env w of
        (startTime, w1) \<Rightarrow>
          analyzeResult env ''Code Review'' startTime (codeReviewTry env context w1))"

definition analyzeSecurity :: "'w Env \<Rightarrow> AgentContext \<Rightarrow> 'w \<Rightarrow> AgentResult \<times> 'w" where
  "analyzeSecurity env context w =
     (case now env w of
        (startTime, w1) \<Rightarrow>
          analyzeResult env ''Security'' startTime (securityTry env context w1))"

definition analyzePerformance :: "'w Env \<Rightarrow> AgentContext \<Rightarrow> 'w \<Rightarrow> AgentResult \<times> 'w" where
  "analyzePerformance env context w =
     (case now env w of
        (startTime, w1) \<Rightarrow>
          analyzeResult env ''Performance'' startTime (performanceTry env context w1))"

subsection \<open>The executor\<close>

text \<open>
  The variables of \<open>execute\<close> while the stages run: the shared context and the results.
  \<open>calls\<close> is not a variable of the source: it records, for every \<open>analyze\<close> call
  in the order of the calls, the context the agent received and the result it returned.
\<close>

record Stages =
  "context" :: AgentContext
  results :: "AgentResult option PerAgent"
  calls :: "(AgentContext \<times> AgentResult) list"

definition initStages :: "ParsedDiff \<Rightarrow> Stages" where
  "initStages d =
     \<lparr>context = \<lparr>diff = d, previousFindings = None\<rparr>,
      results = \<lparr>codeReview = None, security = None, performance = None\<rparr>,
      calls = []\<rparr>"

text \<open>Step 1: \<open>context.previousFindings = results.codeReview.findings\<close>.\<close>

definition stepCodeReview :: "'w Env \<Rightarrow> PipelineConfig \<Rightarrow> Stages \<times> 'w \<Rightarrow> Stages \<times> 'w" where
  "stepCodeReview env config sw =
     (case sw of (st, w) \<Rightarrow>
        if codeReview (agents config) then
          (case analyzeCodeReview env (context st) w of
             (r, w1) \<Rightarrow>
               (st\<lparr>results := (results st)\<lparr>codeReview := Some r\<rparr>,
                   context := (context st)\<lparr>previousFindings := Some (findings r)\<rparr>,
                   calls := calls st @ [(context st, r)]\<rparr>, w1))
        else (st, w))"

text \<open>
  Step 2:
  \<open>context.previousFindings = [...(context.previousFindings || []), ...results.security.findings]\<close>.
\<close>

definition stepSecurity :: "'w Env \<Rightarrow> PipelineConfig \<Rightarrow> Stages \<times> 'w \<Rightarrow> Stages \<times> 'w" where
  "stepSecurity env config sw =
     (case sw of (st, w) \<Rightarrow>
        if security (agents config) then
          (case analyzeSecurity env (context st) w of
             (r, w1) \<Rightarrow>
               (st\<lparr>results := (results st)\<lparr>security := Some r\<rparr>,
                   context := (context st)\<lparr>previousFindings :=
                     Some ((case previousFindings (context st) of None \<Rightarrow> [] | Some p \<Rightarrow> p)
                           @ findings r)\<rparr>,
                   calls := calls st @ [(context st, r)]\<rparr>, w1))
        else (st, w))"

text \<open>Step 3: the context is not written after the last stage.\<close>

definition stepPerformance :: "'w Env \<Rightarrow> PipelineConfig \<Rightarrow> Stages \<times> 'w \<Rightarrow> Stages \<times> 'w" where
  "stepPerformance env config sw =
     (case sw of (st, w) \<Rightarrow>
        if performance (agents config) then
          (case analyzePerformance env (context st) w of
             (r, w1) \<Rightarrow>
               (st\<lparr>results := (results st)\<lparr>performance := Some r\<rparr>,
                   calls := calls st @ [(context st, r)]\<rparr>, w1))
        else (st, w))"

definition runStages :: "'w Env \<Rightarrow> ParsedDiff \<Rightarrow> PipelineConfig \<Rightarrow> 'w \<Rightarrow> Stages \<times> 'w" where
  "runStages env d config w =
     stepPerformance env config
       (stepSecurity env config
         (stepCodeReview env config (initStages d, w)))"

text \<open>\<open>results.x?.findings || []\<close> and \<open>results.x?.tokenUsage?.totalTokens\<close>.\<close>

definition findingsOf :: "AgentResult option \<Rightarrow> AgentFinding list" where
  "findingsOf r = (case r of None \<Rightarrow> [] | Some a \<Rightarrow> findings a)"

definition totalTokensOf :: "AgentResult option \<Rightarrow> nat option" where
  "totalTokensOf r =
     (case r of
        None \<Rightarrow> None
      | Some a \<Rightarrow> (case AgentResult.tokenUsage a of None \<Rightarrow> None | Some u \<Rightarrow> Some (totalTokens u)))"

text \<open>\<open>n || 0\<close> for a number that may be undefined.\<close>

definition orZero :: "nat option \<Rightarrow> nat" where
  "orZero n = (case n of None \<Rightarrow> 0 | Some k \<Rightarrow> k)"

text \<open>
  \<open>aggregateReport\<close>. The reading of the clock for \<open>generatedAt\<close> is an argument.
\<close>

definition aggregateReport :: "AgentResult option PerAgent \<Rightarrow> int \<Rightarrow> int \<Rightarrow> Report" where
  "aggregateReport res elapsed date =
     (let cr = findingsOf (codeReview res);
          sec = findingsOf (security res);
          perf = findingsOf (performance res);
          allFindings = cr @ sec @ perf;
          smry = \<lparr>totalFindings = length allFindings,
                  critical = length (filter (\<lambda>f. severity f = ''critical'') allFindings),
                  high = length (filter (\<lambda>f. severity f = ''high'') allFindings),
                  medium = length (filter (\<lambda>f. severity f = ''medium'') allFindings),
                  low = length (filter (\<lambda>f. severity f = ''low'') allFindings),
                  byAgent = \<lparr>codeReview = length cr, security = length sec,
                             performance = length perf\<rparr>\<rparr>;
          tokens = \<lparr>total = orZero (totalTokensOf (codeReview res))
                             + orZero (totalTokensOf (security res))
                             + orZero (totalTokensOf (performance res)),
                    byAgent = \<lparr>codeReview = totalTokensOf (codeReview res),
                               security = totalTokensOf (security res),
                               performance = totalTokensOf (performance res)\<rparr>\<rparr>
      in \<lparr>codeReview = cr, security = sec, performance = perf,
          summary = smry, generatedAt = date, executionTime = elapsed,
          tokenUsage = (if total tokens > 0 then Some tokens else None)\<rparr>)"

text \<open>
  \<open>generateOutputs\<close>: the directory is made outside any \<open>try\<close>; each format is
  rendered and written inside its own \<open>try\<close>, whose \<open>catch\<close> goes on to the next
  format.
\<close>

definition writeFormat ::
  "'w Env \<Rightarrow> Report \<Rightarrow> OutputConfig \<Rightarrow> string \<Rightarrow> Output list \<times> 'w \<Rightarrow> string \<Rightarrow> Output list \<times> 'w" where
  "writeFormat env rep outputConfig stamp ow fmt =
     (case ow of (outs, w) \<Rightarrow>
        if fmt = ''markdown'' \<or> fmt = ''html'' then
          (case generate env fmt rep w of
             (Inl e, w1) \<Rightarrow> (outs, w1)
           | (Inr text, w1) \<Rightarrow>
               let filename = ''code-review-'' @ stamp
                                @ (if fmt = ''markdown'' then ''.md'' else ''.html'');
                   filepath = joinPath env (directory outputConfig) filename
               in (case writeFileSync env filepath text w1 of
                     (Inl e, w2) \<Rightarrow> (outs, w2)
                   | (Inr u, w2) \<Rightarrow> (outs @ [\<lparr>format = fmt, path = filepath\<rparr>], w2)))
        else (outs, w))"

definition generateOutputs ::
  "'w Env \<Rightarrow> Report \<Rightarrow> OutputConfig \<Rightarrow> 'w \<Rightarrow> (error + Output list) \<times> 'w" where
  "generateOutputs env rep outputConfig w =
     (case mkdirSync env (directory outputConfig) w of
        (Inl e, w1) \<Rightarrow> (Inl e, w1)
      | (Inr u, w1) \<Rightarrow>
          (case timestamp env w1 of
             (stamp, w2) \<Rightarrow>
               (case foldl (writeFormat env rep outputConfig stamp) ([], w2)
                       (formats outputConfig) of
                  (outs, w3) \<Rightarrow> (Inr outs, w3))))"

text \<open>\<open>error instanceof Error ? error.message : "Unknown error"\<close>\<close>

fun errorMessage :: "error \<Rightarrow> string" where
  "errorMessage (Error m) = m"
| "errorMessage (TypeError m) = m"
| "errorMessage (SyntaxError m) = m"
| "errorMessage NonError = ''Unknown error''"

definition failed :: "error \<Rightarrow> PipelineResult" where
  "failed e = \<lparr>report = None, outputs = [], success = False, error = Some (errorMessage e)\<rparr>"

text \<open>\<open>execute\<close>: everything runs inside one \<open>try\<close>, whose \<open>catch\<close> returns the failure.\<close>

definition execute ::
  "'w Env \<Rightarrow> ParsedDiff \<Rightarrow> PipelineConfig \<Rightarrow> 'w \<Rightarrow> PipelineResult \<times> 'w" where
  "execute env d config w =
     (case now env w of
        (startTime, w1) \<Rightarrow>
          (case construct env config w1 of
             (Inl e, w2) \<Rightarrow> (failed e, w2)
           | (Inr u, w2) \<Rightarrow>
               (case runStages env d config w2 of
                  (st, w3) \<Rightarrow>
                    (case now env w3 of
                       (endTime, w4) \<Rightarrow>
                         (case now env w4 of
                            (date, w5) \<Rightarrow>
                              let rep = aggregateReport (results st) (endTime - startTime) date
                              in (case generateOutputs env rep (output config) w5 of
                                    (Inl e, w6) \<Rightarrow> (failed e, w6)
                                  | (Inr outs, w6) \<Rightarrow>
                                      (\<lparr>report = Some rep, outputs = outs, success = True,
                                        error = None\<rparr>, w6)))))))"

text \<open>The four severities that have a count of their own in the summary.\<close>

definition knownSeverity :: "AgentFinding \<Rightarrow> bool" where
  "knownSeverity f = (severity f \<in> {''critical'', ''high'', ''medium'', ''low''})"

text \<open>The results that are present, in the order of the stages.\<close>

definition presentResults :: "AgentResult option PerAgent \<Rightarrow> AgentResult list" where
  "presentResults res =
     List.map_filter (\<lambda>r. r) [codeReview res, security res, performance res]"

text \<open>
  A world for running the model: the state is a counter of the calls made, the clock
  reads ten times the counter, the LLM answers every agent but the security agent, whose
  call throws, and the file system accepts everything.
\<close>

definition demoResponse :: LLMResponse where
  "demoResponse =
     \<lparr>content = emptyFieldsResponse,
      usage = Some \<lparr>promptTokens = 5, completionTokens = 7, totalTokens = 12\<rparr>\<rparr>"

definition demoEnv :: "nat Env" where
  "demoEnv =
     \<lparr>now = (\<lambda>w. (10 * int w, Suc w)),
      construct = (\<lambda>config w. (Inr (), Suc w)),
      chat = (\<lambda>name context preliminary w.
                if name = ''Security'' then (Inl (Error ''OpenAI API error: timeout''), Suc w)
                else (Inr demoResponse, Suc w)),
      runStaticAnalysis = (\<lambda>context w. (Inr [], Suc w)),
      runASTAnalysis = (\<lambda>context w. (Inr [], Suc w)),
      JSON_parse = parseOnly emptyFieldsText emptyFieldsJSON,
      mkdirSync = (\<lambda>dir w. (Inr (), Suc w)),
      writeFileSync = (\<lambda>filepath text w. (Inr (), Suc w)),
      joinPath = (\<lambda>dir name. dir @ ''/'' @ name),
      timestamp = (\<lambda>w. (''2024-01-01T00-00-00-000Z'', Suc w)),
      generate = (\<lambda>fmt rep w. (Inr ''# Code Review Report'', Suc w))\<rparr>"

definition demoConfig :: PipelineConfig where
  "demoConfig =
     \<lparr>llm = \<lparr>provider = ''openai'', apiKey = ''sk-test'', model = None\<rparr>,
      agents = \<lparr>codeReview = True, security = True, performance = True\<rparr>,
      output = \<lparr>formats = [''markdown''], directory = ''./reports''\<rparr>\<rparr>"

definition demoDiff :: ParsedDiff where
  "demoDiff = processDiff specExample None"

definition demoFinding :: AgentFinding where
  "demoFinding =
     \<lparr>type = ''info'', severity = ''low'', category = ''Style'', message = [], file = [],
      line = None, suggestion = None, code = None\<rparr>"

definition demoResult :: "string \<Rightarrow> int \<Rightarrow> AgentResult" where
  "demoResult name elapsed =
     \<lparr>agentName = name, findings = [demoFinding], executionTime = elapsed,
      tokenUsage = Some \<lparr>promptTokens = 5, completionTokens = 7, totalTokens = 12\<rparr>\<rparr>"

text \<open>The same world, but the output directory cannot be made.\<close>

definition noDirectoryEnv :: "nat Env" where
  "noDirectoryEnv =
     demoEnv\<lparr>mkdirSync :=
       (\<lambda>dir w. (Inl (Error ''EACCES: permission denied, mkdir''), Suc w))\<rparr>"
section \<open>Properties of the pipeline\<close>

subsection \<open>The summary of a report\<close>

lemma severity_buckets:
  "length (filter (\<lambda>f. severity f = ''critical'') fs)
   + length (filter (\<lambda>f. severity f = ''high'') fs)
   + length (filter (\<lambda>f. severity f = ''medium'') fs)
   + length (filter (\<lambda>f. severity f = ''low'') fs)
   = length (filter knownSeverity fs)"
  by (induction fs) (auto simp: knownSeverity_def)

text \<open>
  C9. In every aggregated report the total of the summary is the sum of the three
  per-agent counts, and each per-agent count is the length of that agent's list in the
  report. The four severity counts add up to the number of findings whose severity is one
  of critical, high, medium and low; there are results for which this is less than the
  total.
\<close>

theorem aggregateReport_counts:
  "totalFindings (summary (aggregateReport res elapsed date))
     = codeReview (ReportSummary.byAgent (summary (aggregateReport res elapsed date)))
       + security (ReportSummary.byAgent (summary (aggregateReport res elapsed date)))
       + performance (ReportSummary.byAgent (summary (aggregateReport res elapsed date)))
   \<and> codeReview (ReportSummary.byAgent (summary (aggregateReport res elapsed date)))
       = length (codeReview (aggregateReport res elapsed date))
   \<and> security (ReportSummary.byAgent (summary (aggregateReport res elapsed date)))
       = length (security (aggregateReport res elapsed date))
   \<and> performance (ReportSummary.byAgent (summary (aggregateReport res elapsed date)))
       = length (performance (aggregateReport res elapsed date))
   \<and> critical (summary (aggregateReport res elapsed date))
       + high (summary (aggregateReport res elapsed date))
       + medium (summary (aggregateReport res elapsed date))
       + low (summary (aggregateReport res elapsed date))
       = length (filter knownSeverity
           (codeReview (aggregateReport res elapsed date)
            @ security (aggregateReport res elapsed date)
            @ performance (aggregateReport res elapsed date)))
   \<and> (\<exists>res'. critical (summary (aggregateReport res' elapsed date))
               + high (summary (aggregateReport res' elapsed date))
               + medium (summary (aggregateReport res' elapsed date))
               + low (summary (aggregateReport res' elapsed date))
               < totalFindings (summary (aggregateReport res' elapsed date)))"
proof -
  let ?odd = "\<lparr>type = ''info'', severity = ''urgent'', category = ''Style'',
               message = ''m'', file = ''a.ts'', line = None, suggestion = None,
               code = None\<rparr>"
  let ?res = "\<lparr>codeReview = Some \<lparr>agentName = ''Code Review'', findings = [?odd],
                                    executionTime = 0, tokenUsage = None\<rparr>,
               security = None, performance = None\<rparr>"
  have "critical (summary (aggregateReport ?res elapsed date))
               + high (summary (aggregateReport ?res elapsed date))
               + medium (summary (aggregateReport ?res elapsed date))
               + low (summary (aggregateReport ?res elapsed date))
               < totalFindings (summary (aggregateReport ?res elapsed date))"
    by (simp add: aggregateReport_def findingsOf_def Let_def)
  then have ex: "\<exists>res'. critical (summary (aggregateReport res' elapsed date))
               + high (summary (aggregateReport res' elapsed date))
               + medium (summary (aggregateReport res' elapsed date))
               + low (summary (aggregateReport res' elapsed date))
               < totalFindings (summary (aggregateReport res' elapsed date))"
    by blast
  have "critical (summary (aggregateReport res elapsed date))
       + high (summary (aggregateReport res elapsed date))
       + medium (summary (aggregateReport res elapsed date))
       + low (summary (aggregateReport res elapsed date))
       = length (filter knownSeverity
           (codeReview (aggregateReport res elapsed date)
            @ security (aggregateReport res elapsed date)
            @ performance (aggregateReport res elapsed date)))"
    using severity_buckets[of "findingsOf (codeReview res) @ findingsOf (security res)
                                 @ findingsOf (performance res)"]
    by (simp add: aggregateReport_def Let_def)
  with ex show ?thesis
    by (simp add: aggregateReport_def Let_def)
qed

subsection \<open>The context of the stages\<close>

lemma stepCodeReview_on:
  "codeReview (agents config) \<Longrightarrow> analyzeCodeReview env (context st) w = (r, w1) \<Longrightarrow>
   stepCodeReview env config (st, w) =
     (st\<lparr>results := (results st)\<lparr>codeReview := Some r\<rparr>,
         context := (context st)\<lparr>previousFindings := Some (findings r)\<rparr>,
         calls := calls st @ [(context st, r)]\<rparr>, w1)"
  by (simp add: stepCodeReview_def)

lemma stepSecurity_on:
  "security (agents config) \<Longrightarrow> analyzeSecurity env (context st) w = (r, w1) \<Longrightarrow>
   stepSecurity env config (st, w) =
     (st\<lparr>results := (results st)\<lparr>security := Some r\<rparr>,
         context := (context st)\<lparr>previousFindings :=
           Some ((case previousFindings (context st) of None \<Rightarrow> [] | Some p \<Rightarrow> p)
                 @ findings r)\<rparr>,
         calls := calls st @ [(context st, r)]\<rparr>, w1)"
  by (simp add: stepSecurity_def)

lemma stepPerformance_on:
  "performance (agents config) \<Longrightarrow> analyzePerformance env (context st) w = (r, w1) \<Longrightarrow>
   stepPerformance env config (st, w) =
     (st\<lparr>results := (results st)\<lparr>performance := Some r\<rparr>,
         calls := calls st @ [(context st, r)]\<rparr>, w1)"
  by (simp add: stepPerformance_def)

lemma step_off:
  "\<not> codeReview (agents config) \<Longrightarrow> stepCodeReview env config sw = sw"
  "\<not> security (agents config) \<Longrightarrow> stepSecurity env config sw = sw"
  "\<not> performance (agents config) \<Longrightarrow> stepPerformance env config sw = sw"
  by (cases sw; simp add: stepCodeReview_def stepSecurity_def stepPerformance_def)+

text \<open>
  The invariant of the three steps: the context holds the given diff; its previous
  findings are absent before the first call and the concatenation of the findings
  returned so far afterwards; every recorded call received what the context held then;
  the recorded results are the present results in stage order.
\<close>

definition threaded :: "ParsedDiff \<Rightarrow> Stages \<Rightarrow> bool" where
  "threaded d st =
     (diff (context st) = d
      \<and> previousFindings (context st)
          = (if calls st = [] then None
             else Some (concat (map (\<lambda>c. findings (snd c)) (calls st))))
      \<and> (\<forall>k < length (calls st).
            diff (fst (calls st ! k)) = d
            \<and> previousFindings (fst (calls st ! k))
                = (if k = 0 then None
                   else Some (concat (map (\<lambda>c. findings (snd c)) (take k (calls st)))))))"

lemma threaded_init: "threaded d (initStages d)"
  by (simp add: threaded_def initStages_def)

lemma threaded_call:
  assumes "threaded d st"
  shows "threaded d (st\<lparr>results := res,
           context := (context st)\<lparr>previousFindings :=
             Some ((case previousFindings (context st) of None \<Rightarrow> [] | Some p \<Rightarrow> p)
                   @ findings r)\<rparr>,
           calls := calls st @ [(context st, r)]\<rparr>)"
  using assms
  by (auto simp: threaded_def nth_append less_Suc_eq)

lemma threaded_last_call:
  assumes "threaded d st"
  shows "\<forall>k < length (calls st @ [(context st, r)]).
            diff (fst ((calls st @ [(context st, r)]) ! k)) = d
            \<and> previousFindings (fst ((calls st @ [(context st, r)]) ! k))
                = (if k = 0 then None
                   else Some (concat (map (\<lambda>c. findings (snd c))
                                        (take k (calls st @ [(context st, r)])))))"
  using assms
  by (auto simp: threaded_def nth_append less_Suc_eq)

text \<open>
  C4. In every run of the stages, the calls of \<open>analyze\<close> are those of the enabled
  stages in the configured order, the first call receives no previous findings, and
  every later call receives exactly the concatenation of the findings returned by the
  calls before it, in the order of the calls: never its own findings, never those of a
  stage that has not run yet.
\<close>

theorem context_is_concatenation:
  assumes "runStages env d config w = (st, w')"
  shows "(\<forall>k < length (calls st).
            diff (fst (calls st ! k)) = d
            \<and> previousFindings (fst (calls st ! k))
                = (if k = 0 then None
                   else Some (concat (map (\<lambda>c. findings (snd c)) (take k (calls st))))))
         \<and> map snd (calls st) = presentResults (results st)"
proof -
  obtain s1 w1 where 1: "stepCodeReview env config (initStages d, w) = (s1, w1)"
    by fastforce
  obtain s2 w2 where 2: "stepSecurity env config (s1, w1) = (s2, w2)"
    by fastforce
  from assms 1 2 have 3: "stepPerformance env config (s2, w2) = (st, w')"
    by (simp add: runStages_def)
  have t1: "threaded d s1"
  proof (cases "codeReview (agents config)")
    case True
    obtain r u where "analyzeCodeReview env (context (initStages d)) w = (r, u)"
      by fastforce
    with True 1 threaded_call[where d = d and st = "initStages d" and r = r
        and res = "(results (initStages d))\<lparr>codeReview := Some r\<rparr>", OF threaded_init]
    show ?thesis
      by (simp add: stepCodeReview_def initStages_def)
  next
    case False
    with 1 have "s1 = initStages d"
      by (simp add: step_off)
    then show ?thesis
      by (simp add: threaded_init)
  qed
  have t2: "threaded d s2"
  proof (cases "security (agents config)")
    case True
    obtain r u where "analyzeSecurity env (context s1) w1 = (r, u)"
      by fastforce
    with True 2 threaded_call[where d = d and st = s1 and r = r
        and res = "(results s1)\<lparr>security := Some r\<rparr>", OF t1]
    show ?thesis
      by (simp add: stepSecurity_def)
  next
    case False
    with 2 have "s2 = s1"
      by (simp add: step_off)
    with t1 show ?thesis
      by simp
  qed
  have seen: "\<forall>k < length (calls st).
            diff (fst (calls st ! k)) = d
            \<and> previousFindings (fst (calls st ! k))
                = (if k = 0 then None
                   else Some (concat (map (\<lambda>c. findings (snd c)) (take k (calls st)))))"
  proof (cases "performance (agents config)")
    case True
    obtain r u where "analyzePerformance env (context s2) w2 = (r, u)"
      by fastforce
    with True 3 have "calls st = calls s2 @ [(context s2, r)]"
      by (auto simp: stepPerformance_def)
    with threaded_last_call[OF t2, of r] show ?thesis
      by simp
  next
    case False
    with 3 have "st = s2"
      by (simp add: step_off)
    with t2 show ?thesis
      by (simp add: threaded_def)
  qed
  have logged: "map snd (calls st) = presentResults (results st)"
    using assms
    by (auto simp: runStages_def stepCodeReview_def stepSecurity_def stepPerformance_def
        initStages_def presentResults_def List.map_filter_simps
        split: prod.splits if_splits)
  from seen logged show ?thesis
    by blast
qed

lemma demoEnv_calls:
  "now demoEnv w = (10 * int w, Suc w)"
  "construct demoEnv config w = (Inr (), Suc w)"
  "chat demoEnv ''Security'' c p w = (Inl (Error ''OpenAI API error: timeout''), Suc w)"
  "chat demoEnv ''Code Review'' c p w = (Inr demoResponse, Suc w)"
  "chat demoEnv ''Performance'' c p w = (Inr demoResponse, Suc w)"
  "runStaticAnalysis demoEnv c w = (Inr [], Suc w)"
  "runASTAnalysis demoEnv c w = (Inr [], Suc w)"
  "JSON_parse demoEnv = parseOnly emptyFieldsText emptyFieldsJSON"
  "mkdirSync demoEnv dir w = (Inr (), Suc w)"
  by (simp_all add: demoEnv_def)

lemma demo_codeReview:
  "analyzeCodeReview demoEnv \<lparr>diff = demoDiff, previousFindings = None\<rparr> 2
     = (demoResult ''Code Review'' 20, 5)"
  by (simp add: analyzeCodeReview_def analyzeResult_def codeReviewTry_def demoEnv_calls
      demoResponse_def demoResult_def demoFinding_def emptyFields_parse)

lemma demo_securityTry:
  "securityTry demoEnv \<lparr>diff = demoDiff, previousFindings = Some [demoFinding]\<rparr> 6
     = (Inl (Error ''OpenAI API error: timeout''), 8)"
  by (simp add: securityTry_def demoEnv_calls)

lemma demo_performance:
  "analyzePerformance demoEnv \<lparr>diff = demoDiff, previousFindings = Some [demoFinding]\<rparr> 9
     = (demoResult ''Performance'' 30, 13)"
  by (simp add: analyzePerformance_def analyzeResult_def performanceTry_def demoEnv_calls
      demoResponse_def demoResult_def demoFinding_def emptyFields_parse)

lemma demo_security:
  "analyzeSecurity demoEnv \<lparr>diff = demoDiff, previousFindings = Some [demoFinding]\<rparr> 5
     = (\<lparr>agentName = ''Security'', findings = [], executionTime = 30, tokenUsage = None\<rparr>, 9)"
  by (simp add: analyzeSecurity_def analyzeResult_def demoEnv_calls demo_securityTry)

lemma demo_runStages:
  "runStages demoEnv demoDiff demoConfig 2 =
     (\<lparr>context = \<lparr>diff = demoDiff, previousFindings = Some [demoFinding]\<rparr>,
       results = \<lparr>codeReview = Some (demoResult ''Code Review'' 20),
                  security = Some \<lparr>agentName = ''Security'', findings = [],
                                   executionTime = 30, tokenUsage = None\<rparr>,
                  performance = Some (demoResult ''Performance'' 30)\<rparr>,
       calls = [(\<lparr>diff = demoDiff, previousFindings = None\<rparr>, demoResult ''Code Review'' 20),
                (\<lparr>diff = demoDiff, previousFindings = Some [demoFinding]\<rparr>,
                 \<lparr>agentName = ''Security'', findings = [],
                  executionTime = 30, tokenUsage = None\<rparr>),
                (\<lparr>diff = demoDiff, previousFindings = Some [demoFinding]\<rparr>,
                 demoResult ''Performance'' 30)]\<rparr>, 13)"
proof -
  have f: "findings (demoResult ''Code Review'' 20) = [demoFinding]"
    by (simp add: demoResult_def)
  show ?thesis
    by (simp add: runStages_def stepCodeReview_def stepSecurity_def stepPerformance_def
        initStages_def demoConfig_def demo_codeReview f demo_security demo_performance)
qed

theorem context_is_concatenation_witness:
  "length (calls (fst (runStages demoEnv demoDiff demoConfig 2))) = 3
   \<and> previousFindings (fst (calls (fst (runStages demoEnv demoDiff demoConfig 2)) ! 0)) = None
   \<and> previousFindings (fst (calls (fst (runStages demoEnv demoDiff demoConfig 2)) ! 1))
       = Some (concat (map (\<lambda>c. findings (snd c))
                 (take 1 (calls (fst (runStages demoEnv demoDiff demoConfig 2))))))
   \<and> previousFindings (fst (calls (fst (runStages demoEnv demoDiff demoConfig 2)) ! 2))
       = Some (concat (map (\<lambda>c. findings (snd c))
                 (take 2 (calls (fst (runStages demoEnv demoDiff demoConfig 2))))))
   \<and> map (\<lambda>c. previousFindings (fst c)) (calls (fst (runStages demoEnv demoDiff demoConfig 2)))
       = [None, Some [demoFinding], Some [demoFinding]]
   \<and> map (\<lambda>c. findings (snd c)) (calls (fst (runStages demoEnv demoDiff demoConfig 2)))
       = [[demoFinding], [], [demoFinding]]"
proof -
  have n: "length (calls (fst (runStages demoEnv demoDiff demoConfig 2))) = 3"
    by (simp add: demo_runStages)
  have v: "map (\<lambda>c. previousFindings (fst c)) (calls (fst (runStages demoEnv demoDiff demoConfig 2)))
             = [None, Some [demoFinding], Some [demoFinding]]
           \<and> map (\<lambda>c. findings (snd c)) (calls (fst (runStages demoEnv demoDiff demoConfig 2)))
             = [[demoFinding], [], [demoFinding]]"
    by (simp add: demo_runStages demoResult_def)
  from context_is_concatenation[OF demo_runStages] n
  have "\<forall>k < 3. previousFindings (fst (calls (fst (runStages demoEnv demoDiff demoConfig 2)) ! k))
           = (if k = 0 then None
              else Some (concat (map (\<lambda>c. findings (snd c))
                     (take k (calls (fst (runStages demoEnv demoDiff demoConfig 2)))))))"
    by (simp add: demo_runStages)
  then have
    "previousFindings (fst (calls (fst (runStages demoEnv demoDiff demoConfig 2)) ! 0)) = None"
    "previousFindings (fst (calls (fst (runStages demoEnv demoDiff demoConfig 2)) ! 1))
       = Some (concat (map (\<lambda>c. findings (snd c))
                 (take 1 (calls (fst (runStages demoEnv demoDiff demoConfig 2))))))"
    "previousFindings (fst (calls (fst (runStages demoEnv demoDiff demoConfig 2)) ! 2))
       = Some (concat (map (\<lambda>c. findings (snd c))
                 (take 2 (calls (fst (runStages demoEnv demoDiff demoConfig 2))))))"
    by force+
  with n v show ?thesis
    by blast
qed

subsection \<open>A stage that throws\<close>

lemma analyzeSecurity_caught:
  assumes "now env w = (t, w1)" "securityTry env c w1 = (Inl e, w2)" "now env w2 = (t', w3)"
  shows "analyzeSecurity env c w
           = (\<lparr>agentName = ''Security'', findings = [], executionTime = t' - t,
               tokenUsage = None\<rparr>, w3)"
  using assms by (simp add: analyzeSecurity_def analyzeResult_def)

lemma runStages_all:
  assumes "codeReview (agents config) \<and> security (agents config) \<and> performance (agents config)"
    and "analyzeCodeReview env \<lparr>diff = d, previousFindings = None\<rparr> w = (r1, w1)"
    and "analyzeSecurity env \<lparr>diff = d, previousFindings = Some (findings r1)\<rparr> w1 = (r2, w2)"
    and "analyzePerformance env
           \<lparr>diff = d, previousFindings = Some (findings r1 @ findings r2)\<rparr> w2 = (r3, w3)"
  shows "results (fst (runStages env d config w))
           = \<lparr>codeReview = Some r1, security = Some r2, performance = Some r3\<rparr>
         \<and> snd (runStages env d config w) = w3"
  using assms
  by (simp add: runStages_def stepCodeReview_def stepSecurity_def stepPerformance_def
      initStages_def)

lemma generateOutputs_after_mkdir:
  assumes "mkdirSync env (directory outputConfig) w = (Inr (), w1)"
  shows "\<exists>outs w'. generateOutputs env rep outputConfig w = (Inr outs, w')"
proof -
  obtain stamp w2 where s: "timestamp env w1 = (stamp, w2)"
    by fastforce
  obtain outs w3 where
    "foldl (writeFormat env rep outputConfig stamp) ([], w2) (formats outputConfig) = (outs, w3)"
    by fastforce
  with assms s show ?thesis
    by (simp add: generateOutputs_def)
qed

text \<open>
  C5 (amended). In a run with the three stages enabled whose setup succeeds, if an error is thrown
  inside the analysis of the security stage while the code review stage and the
  performance stage return their results, and the output directory can be made, then
  \<open>execute\<close> returns success with a report that holds the findings of the code review
  stage and of the performance stage and no finding of the security stage; the result
  recorded for the security stage has no findings and, as its execution time, the time
  from the start of the stage to the catch of the error.
\<close>

theorem stage_isolation:
  assumes H_enabled:
      "codeReview (agents config) \<and> security (agents config) \<and> performance (agents config)"
    and H_start: "now env w0 = (startTime, w1)"
    and H_setup: "construct env config w1 = (Inr (), w2)"
    and H_stage1: "analyzeCodeReview env \<lparr>diff = d, previousFindings = None\<rparr> w2 = (r1, w3)"
    and H_stage2_start: "now env w3 = (t2, w4)"
    and H_stage2_throws:
      "securityTry env \<lparr>diff = d, previousFindings = Some (findings r1)\<rparr> w4 = (Inl e, w5)"
    and H_stage2_catch: "now env w5 = (t2', w6)"
    and H_stage3:
      "analyzePerformance env \<lparr>diff = d, previousFindings = Some (findings r1)\<rparr> w6 = (r3, w7)"
    and H_finish: "now env w7 = (endTime, w8)"
    and H_dated: "now env w8 = (date, w9)"
    and H_mkdir: "mkdirSync env (directory (output config)) w9 = (Inr (), w10)"
  shows "\<exists>rep.
           report (fst (execute env d config w0)) = Some rep
           \<and> success (fst (execute env d config w0))
           \<and> error (fst (execute env d config w0)) = None
           \<and> codeReview rep = findings r1
           \<and> security rep = []
           \<and> performance rep = findings r3
           \<and> security (results (fst (runStages env d config w2)))
               = Some \<lparr>agentName = ''Security'', findings = [], executionTime = t2' - t2,
                       tokenUsage = None\<rparr>"
proof -
  let ?r2 = "\<lparr>agentName = ''Security'', findings = [], executionTime = t2' - t2,
              tokenUsage = None\<rparr>"
  have sec: "analyzeSecurity env \<lparr>diff = d, previousFindings = Some (findings r1)\<rparr> w3 = (?r2, w6)"
    by (rule analyzeSecurity_caught[OF H_stage2_start H_stage2_throws H_stage2_catch])
  have run: "results (fst (runStages env d config w2))
               = \<lparr>codeReview = Some r1, security = Some ?r2, performance = Some r3\<rparr>
             \<and> snd (runStages env d config w2) = w7"
    using runStages_all[OF H_enabled H_stage1 sec] H_stage3 by simp
  obtain st where st: "runStages env d config w2 = (st, w7)"
    "results st = \<lparr>codeReview = Some r1, security = Some ?r2, performance = Some r3\<rparr>"
    using run by (cases "runStages env d config w2") auto
  let ?rep = "aggregateReport (results st) (endTime - startTime) date"
  obtain outs w11 where outs: "generateOutputs env ?rep (output config) w9 = (Inr outs, w11)"
    using generateOutputs_after_mkdir[OF H_mkdir] by blast
  have ex: "execute env d config w0
              = (\<lparr>report = Some ?rep, outputs = outs, success = True, error = None\<rparr>, w11)"
    using H_start H_setup st(1) H_finish H_dated outs by (simp add: execute_def)
  have "codeReview ?rep = findings r1 \<and> security ?rep = [] \<and> performance ?rep = findings r3"
    using st(2) by (simp add: aggregateReport_def findingsOf_def Let_def)
  with ex st show ?thesis
    by simp
qed

theorem stage_isolation_witness:
  "codeReview (agents demoConfig) \<and> security (agents demoConfig) \<and> performance (agents demoConfig)
   \<and> construct demoEnv demoConfig 1 = (Inr (), 2)
   \<and> securityTry demoEnv \<lparr>diff = demoDiff, previousFindings = Some [demoFinding]\<rparr> 6
       = (Inl (Error ''OpenAI API error: timeout''), 8)
   \<and> mkdirSync demoEnv (directory (output demoConfig)) 15 = (Inr (), 16)
   \<and> (\<exists>rep. report (fst (execute demoEnv demoDiff demoConfig 0)) = Some rep
         \<and> success (fst (execute demoEnv demoDiff demoConfig 0))
         \<and> error (fst (execute demoEnv demoDiff demoConfig 0)) = None
         \<and> codeReview rep = [demoFinding]
         \<and> security rep = []
         \<and> performance rep = [demoFinding]
         \<and> security (results (fst (runStages demoEnv demoDiff demoConfig 2)))
             = Some \<lparr>agentName = ''Security'', findings = [], executionTime = 30,
                     tokenUsage = None\<rparr>)"
proof -
  have enabled: "codeReview (agents demoConfig) \<and> security (agents demoConfig)
                 \<and> performance (agents demoConfig)"
    by (simp add: demoConfig_def)
  have f: "findings (demoResult ''Code Review'' 20) = [demoFinding]"
    "findings (demoResult ''Performance'' 30) = [demoFinding]"
    by (simp_all add: demoResult_def)
  have s2: "securityTry demoEnv
              \<lparr>diff = demoDiff, previousFindings = Some (findings (demoResult ''Code Review'' 20))\<rparr>
              6 = (Inl (Error ''OpenAI API error: timeout''), 8)"
    using demo_securityTry f by simp
  have s3: "analyzePerformance demoEnv
              \<lparr>diff = demoDiff, previousFindings = Some (findings (demoResult ''Code Review'' 20))\<rparr>
              9 = (demoResult ''Performance'' 30, 13)"
    using demo_performance f by simp
  have t: "now demoEnv 0 = (0, 1)" "now demoEnv 5 = (50, 6)" "now demoEnv 8 = (80, 9)"
    "now demoEnv 13 = (130, 14)" "now demoEnv 14 = (140, 15)"
    by (simp_all add: demoEnv_calls)
  have c: "construct demoEnv demoConfig 1 = (Inr (), 2)"
    by (simp add: demoEnv_calls)
  have m: "mkdirSync demoEnv (directory (output demoConfig)) 15 = (Inr (), 16)"
    by (simp add: demoEnv_calls)
  show ?thesis
    using stage_isolation[OF enabled t(1) c demo_codeReview t(2) s2 t(3) s3 t(4) t(5) m]
      enabled c demo_securityTry m f
    by simp
qed

text \<open>
  C5 (counterexample). The run of the three stages in the world where the output
  directory cannot be made: the code review stage and the performance stage return
  their findings and the error thrown in the security stage is caught there, as before,
  yet \<open>mkdirSync\<close> throws outside every inner \<open>try\<close> and \<open>execute\<close> returns a
  failure without a report.
\<close>

lemma noDirectory_fields:
  "now noDirectoryEnv = now demoEnv"
  "construct noDirectoryEnv = construct demoEnv"
  "chat noDirectoryEnv = chat demoEnv"
  "runStaticAnalysis noDirectoryEnv = runStaticAnalysis demoEnv"
  "runASTAnalysis noDirectoryEnv = runASTAnalysis demoEnv"
  "JSON_parse noDirectoryEnv = JSON_parse demoEnv"
  by (simp_all add: noDirectoryEnv_def)

lemma noDirectory_stages:
  "analyzeCodeReview noDirectoryEnv c w = analyzeCodeReview demoEnv c w"
  "securityTry noDirectoryEnv c w = securityTry demoEnv c w"
  "analyzeSecurity noDirectoryEnv c w = analyzeSecurity demoEnv c w"
  "analyzePerformance noDirectoryEnv c w = analyzePerformance demoEnv c w"
  unfolding analyzeCodeReview_def analyzeSecurity_def analyzePerformance_def
    analyzeResult_def codeReviewTry_def securityTry_def performanceTry_def
    noDirectory_fields
  by (rule refl)+

lemma noDirectory_runStages:
  "runStages noDirectoryEnv d config w = runStages demoEnv d config w"
  unfolding runStages_def stepCodeReview_def stepSecurity_def stepPerformance_def
    noDirectory_stages
  by (rule refl)

lemma execute_without_directory:
  assumes "now env w0 = (startTime, w1)"
    and "construct env config w1 = (Inr (), w2)"
    and "runStages env d config w2 = (st, w3)"
    and "now env w3 = (endTime, w4)"
    and "now env w4 = (date, w5)"
    and "mkdirSync env (directory (output config)) w5 = (Inl e, w6)"
  shows "execute env d config w0 = (failed e, w6)"
  using assms by (simp add: execute_def generateOutputs_def)

theorem stage_isolation_without_directory:
  "analyzeCodeReview noDirectoryEnv \<lparr>diff = demoDiff, previousFindings = None\<rparr> 2
     = (demoResult ''Code Review'' 20, 5)
   \<and> securityTry noDirectoryEnv \<lparr>diff = demoDiff, previousFindings = Some [demoFinding]\<rparr> 6
       = (Inl (Error ''OpenAI API error: timeout''), 8)
   \<and> analyzePerformance noDirectoryEnv \<lparr>diff = demoDiff, previousFindings = Some [demoFinding]\<rparr> 9
       = (demoResult ''Performance'' 30, 13)
   \<and> findings (demoResult ''Code Review'' 20) = [demoFinding]
   \<and> findings (demoResult ''Performance'' 30) = [demoFinding]
   \<and> execute noDirectoryEnv demoDiff demoConfig 0
       = (\<lparr>report = None, outputs = [], success = False,
           error = Some ''EACCES: permission denied, mkdir''\<rparr>, 16)"
proof -
  have t: "now noDirectoryEnv 0 = (0, 1)" "now noDirectoryEnv 13 = (130, 14)"
    "now noDirectoryEnv 14 = (140, 15)"
    by (simp_all add: noDirectory_fields demoEnv_calls)
  have c: "construct noDirectoryEnv demoConfig 1 = (Inr (), 2)"
    by (simp add: noDirectory_fields demoEnv_calls)
  have m: "mkdirSync noDirectoryEnv (directory (output demoConfig)) 15
             = (Inl (Error ''EACCES: permission denied, mkdir''), 16)"
    by (simp add: noDirectoryEnv_def)
  have r: "runStages noDirectoryEnv demoDiff demoConfig 2
             = (fst (runStages demoEnv demoDiff demoConfig 2), 13)"
    by (simp add: noDirectory_runStages demo_runStages)
  have e: "execute noDirectoryEnv demoDiff demoConfig 0
       = (\<lparr>report = None, outputs = [], success = False,
           error = Some ''EACCES: permission denied, mkdir''\<rparr>, 16)"
    using execute_without_directory[OF t(1) c r t(2) t(3) m] by (simp add: failed_def)
  have f: "findings (demoResult ''Code Review'' 20) = [demoFinding]"
    "findings (demoResult ''Performance'' 30) = [demoFinding]"
    by (simp_all add: demoResult_def)
  from e f show ?thesis
    by (simp add: noDirectory_stages demo_codeReview demo_securityTry demo_performance)
qed
section \<open>Report markdown extractor (commands/extract.ts)\<close>

subsection \<open>Strings and regular expressions\<close>

text \<open>
  The white space of \<open>trim()\<close> and of the class \<open>\s\<close>, among the 8-bit characters:
  tab, line feed, vertical tab, form feed, carriage return, space and no-break space.
\<close>

definition isSpace :: "char \<Rightarrow> bool" where
  "isSpace c = ((of_char c :: nat) \<in> {9, 10, 11, 12, 13, 32, 160})"

definition trim :: "string \<Rightarrow> string" where
  "trim s = rev (dropWhile isSpace (rev (dropWhile isSpace s)))"

text \<open>
  \<open>toLowerCase()\<close> on 8-bit characters: the letters A to Z and the accented capitals
  from 0xC0 to 0xDE, the multiplication sign 0xD7 apart.
\<close>

definition toLowerChar :: "char \<Rightarrow> char" where
  "toLowerChar c =
     (let n = (of_char c :: nat) in
      if (65 \<le> n \<and> n \<le> 90) \<or> (192 \<le> n \<and> n \<le> 222 \<and> n \<noteq> 215) then char_of (n + 32)
      else c)"

definition toLowerCase :: "string \<Rightarrow> string" where
  "toLowerCase s = map toLowerChar s"

text \<open>\<open>codeLines.join("\n")\<close>\<close>

fun joinLines :: "string list \<Rightarrow> string" where
  "joinLines [] = []"
| "joinLines [l] = l"
| "joinLines (l # ls) = l @ CHR 0x0A # joinLines ls"

text \<open>\<open>l.replace(/^\s{4}/, "")\<close>\<close>

definition stripIndent :: "string \<Rightarrow> string" where
  "stripIndent l = (if 4 \<le> length l \<and> list_all isSpace (take 4 l) then drop 4 l else l)"

text \<open>\<open>xs[i]\<close>: the element, or \<open>undefined\<close> outside the array.\<close>

definition elementAt :: "'a list \<Rightarrow> nat \<Rightarrow> 'a option" where
  "elementAt xs i = (if i < length xs then Some (xs ! i) else None)"

text \<open>
  A search for an expression that is not anchored: the match is tried at the start of
  the string, then one character further, and so on to the end.
\<close>

fun firstMatch :: "(string \<Rightarrow> 'a option) \<Rightarrow> string \<Rightarrow> 'a option" where
  "firstMatch m [] = m []"
| "firstMatch m (c # cs) = (case m (c # cs) of Some r \<Rightarrow> Some r | None \<Rightarrow> firstMatch m cs)"

text \<open>
  \<open>/^- \[x\] \*\*\[(.+?)\]\*\* (.+)$/\<close>: after the opening, the lazy first group
  tries the occurrences of \<open>"]** "\<close> from the left; both groups refuse line
  terminators and the second reaches the end of the line.
\<close>

definition checkedMatch :: "string \<Rightarrow> (string \<times> string) option" where
  "checkedMatch l =
     (if startsWith ''- [x] **['' l
      then List.find
             (\<lambda>(g1, g2). \<not> list_ex isLineTerminator g1 \<and> g2 \<noteq> []
                          \<and> \<not> list_ex isLineTerminator g2)
             (splitsAt '']** '' [] (drop 9 l))
      else None)"

text \<open>
  \<open>/- \*\*File\*\*: `(.+?)`(:(\d+))?/\<close>, groups 1 and 3: the path up to the next
  backtick and, when a colon and digits follow it, the digits.
\<close>

definition fileAt :: "string \<Rightarrow> (string \<times> string option) option" where
  "fileAt s =
     (if startsWith ''- **File**: `'' s
      then (case List.find (\<lambda>(g1, r). \<not> list_ex isLineTerminator g1)
                   (splitsAt ''`'' [] (drop 13 s)) of
              None \<Rightarrow> None
            | Some (g1, r) \<Rightarrow>
                if startsWith '':'' r \<and> takeWhile isDigit (drop 1 r) \<noteq> []
                then Some (g1, Some (takeWhile isDigit (drop 1 r)))
                else Some (g1, None))
      else None)"

definition fileMatch :: "string \<Rightarrow> (string \<times> string option) option" where
  "fileMatch detailLine = firstMatch fileAt detailLine"

text \<open>
  \<open>/- \*\*Issue\*\*: (.+)/\<close> and \<open>/- \*\*Suggestion\*\*: (.+)/\<close>: the label, then
  the characters up to the end of the line or a line terminator, at least one.
\<close>

definition labelAt :: "string \<Rightarrow> string \<Rightarrow> string option" where
  "labelAt label s =
     (if startsWith label s \<and> takeWhile (\<lambda>c. \<not> isLineTerminator c) (drop (length label) s) \<noteq> []
      then Some (takeWhile (\<lambda>c. \<not> isLineTerminator c) (drop (length label) s))
      else None)"

definition issueMatch :: "string \<Rightarrow> string option" where
  "issueMatch detailLine = firstMatch (labelAt ''- **Issue**: '') detailLine"

definition suggestionMatch :: "string \<Rightarrow> string option" where
  "suggestionMatch detailLine = firstMatch (labelAt ''- **Suggestion**: '') detailLine"

subsection \<open>extractCheckedFindings\<close>

record ExtractedFinding =
  severity :: string
  category :: string
  "file" :: string
  line :: "enat option"
  issue :: string
  suggestion :: "string option"
  code :: "string option"

text \<open>A method call on \<open>undefined\<close>.\<close>

definition undefinedRead :: error where
  "undefinedRead = TypeError ''Cannot read properties of undefined''"

text \<open>
  The innermost loop: from line \<open>i\<close>, the lines before the first whose trimmed text
  ends with the fence, each without one level of indentation.
\<close>

function codeLoop :: "string list \<Rightarrow> nat \<Rightarrow> string list \<Rightarrow> error + (string list \<times> nat)" where
  "codeLoop lines i codeLines =
     (if i < length lines then
        (case elementAt lines i of
           None \<Rightarrow> Inl undefinedRead
         | Some l \<Rightarrow>
             if \<not> endsWith ''```'' (trim l)
             then codeLoop lines (i + 1) (codeLines @ [stripIndent l])
             else Inr (codeLines, i))
      else Inr (codeLines, i))"
  by pat_completeness auto
termination
  by (relation "measure (\<lambda>(lines, i, codeLines). length lines - i)") auto

declare codeLoop.simps [simp del]

lemma codeLoop_index: "codeLoop lines i codeLines = Inr (cs, j) \<Longrightarrow> i \<le> j"
proof (induction lines i codeLines rule: codeLoop.induct)
  case (1 lines i codeLines)
  from "1.prems" "1.IH" show ?case
    by (subst (asm) codeLoop.simps) (auto simp: elementAt_def split: if_splits)
qed

text \<open>The three field expressions on one detail line.\<close>

definition readFields :: "string \<Rightarrow> ExtractedFinding \<Rightarrow> ExtractedFinding" where
  "readFields detailLine finding =
     (let f1 = (case fileMatch detailLine of
                  None \<Rightarrow> finding
                | Some (p, None) \<Rightarrow> finding\<lparr>file := p\<rparr>
                | Some (p, Some digits) \<Rightarrow> finding\<lparr>file := p, line := Some (parseInt digits)\<rparr>);
          f2 = (case issueMatch detailLine of
                  None \<Rightarrow> f1
                | Some text \<Rightarrow> f1\<lparr>issue := text\<rparr>)
      in (case suggestionMatch detailLine of
            None \<Rightarrow> f2
          | Some text \<Rightarrow> f2\<lparr>suggestion := Some text\<rparr>))"

text \<open>
  The condition that ends the details of an item: another checkbox, a heading, or a
  blank line before another checkbox.
\<close>

definition stopsAt :: "string list \<Rightarrow> nat \<Rightarrow> string \<Rightarrow> bool" where
  "stopsAt lines i detailLine =
     (startsWith ''- ['' detailLine
      \<or> startsWith ''##'' detailLine
      \<or> (trim detailLine = []
          \<and> (case elementAt lines (i + 1) of None \<Rightarrow> False | Some next \<Rightarrow> startsWith ''- ['' next)))"

text \<open>
  The loop over the detail lines of an item. After a \<open>Code\<close> line the next line is
  looked at: when it opens a fence the code lines are collected and the loop goes on
  behind the line where they stopped; otherwise the loop goes on behind that next line.
\<close>

function detailLoop ::
  "string list \<Rightarrow> nat \<Rightarrow> ExtractedFinding \<Rightarrow> error + (ExtractedFinding \<times> nat)" where
  "detailLoop lines i finding =
     (if i < length lines then
        (case elementAt lines i of
           None \<Rightarrow> Inl undefinedRead
         | Some detailLine \<Rightarrow>
             if stopsAt lines i detailLine then Inr (finding, i)
             else
               if includesStr ''- **Code**:'' detailLine then
                 (case elementAt lines (i + 1) of
                    None \<Rightarrow> detailLoop lines (i + 2) (readFields detailLine finding)
                  | Some opening \<Rightarrow>
                      if startsWith ''```'' (trim opening) then
                        (case codeLoop lines (i + 2) [] of
                           Inl e \<Rightarrow> Inl e
                         | Inr (codeLines, j) \<Rightarrow>
                             detailLoop lines (j + 1)
                               ((readFields detailLine finding)\<lparr>code := Some (joinLines codeLines)\<rparr>))
                      else detailLoop lines (i + 2) (readFields detailLine finding))
               else detailLoop lines (i + 1) (readFields detailLine finding))
      else Inr (finding, i))"
  by pat_completeness auto
termination
  by (relation "measure (\<lambda>(lines, i, finding). length lines - i)")
    (auto dest!: codeLoop_index)

declare detailLoop.simps [simp del]

lemma detailLoop_index: "detailLoop lines i finding = Inr (g, j) \<Longrightarrow> i \<le> j"
proof (induction lines i finding arbitrary: g j rule: detailLoop.induct)
  case (1 lines i finding)
  note u = detailLoop.simps[of lines i finding]
  show ?case
  proof (cases "i < length lines")
    case False
    with "1.prems" u show ?thesis
      by simp
  next
    case True
    then have a: "elementAt lines i = Some (lines ! i)"
      by (simp add: elementAt_def)
    show ?thesis
    proof (cases "stopsAt lines i (lines ! i)")
      case True
      with \<open>i < length lines\<close> a "1.prems" u show ?thesis
        by simp
    next
      case False
      note ns = this
      show ?thesis
      proof (cases "includesStr ''- **Code**:'' (lines ! i)")
        case False
        with True a ns "1.prems" u "1.IH"(4)[of "lines ! i" g j] show ?thesis
          by simp
      next
        case True
        note cd = this
        show ?thesis
        proof (cases "elementAt lines (i + 1)")
          case None
          with \<open>i < length lines\<close> a ns cd "1.prems" u "1.IH"(1)[of "lines ! i" g j] show ?thesis
            by simp
        next
          case (Some fence)
          show ?thesis
          proof (cases "startsWith ''```'' (trim fence)")
            case False
            with \<open>i < length lines\<close> a ns cd Some "1.prems" u "1.IH"(3)[of "lines ! i" fence g j]
            show ?thesis
              by simp
          next
            case True
            with \<open>i < length lines\<close> a ns cd Some "1.prems" u
            obtain codeLines k where
              c: "codeLoop lines (i + 2) [] = Inr (codeLines, k)"
              and d: "detailLoop lines (k + 1)
                     ((readFields (lines ! i) finding)\<lparr>code := Some (joinLines codeLines)\<rparr>)
                   = Inr (g, j)"
              by (auto split: sum.splits)
            from "1.IH"(2)[OF \<open>i < length lines\<close> a ns cd Some True c refl d]
              codeLoop_index[OF c]
            show ?thesis
              by simp
          qed
        qed
      qed
    qed
  qed
qed

text \<open>
  The outer loop: a line that opens a checked item starts the detail loop on the next
  line with a fresh finding; the finding is pushed when its file and issue are truthy,
  that is, not empty; the loop goes on where the detail loop stopped.
\<close>

definition newFinding :: "string \<Rightarrow> string \<Rightarrow> ExtractedFinding" where
  "newFinding sev cat =
     \<lparr>severity = toLowerCase sev, category = cat, file = [], line = None, issue = [],
      suggestion = None, code = None\<rparr>"

function mainLoop ::
  "string list \<Rightarrow> nat \<Rightarrow> ExtractedFinding list \<Rightarrow> error + ExtractedFinding list" where
  "mainLoop lines i found =
     (if i < length lines then
        (case elementAt lines i of
           None \<Rightarrow> Inl undefinedRead
         | Some l \<Rightarrow>
             (case checkedMatch l of
                None \<Rightarrow> mainLoop lines (i + 1) found
              | Some (sev, cat) \<Rightarrow>
                  (case detailLoop lines (i + 1) (newFinding sev cat) of
                     Inl e \<Rightarrow> Inl e
                   | Inr (finding, j) \<Rightarrow>
                       mainLoop lines j
                         (if file finding \<noteq> [] \<and> issue finding \<noteq> []
                          then found @ [finding] else found))))
      else Inr found)"
  by pat_completeness auto
termination
  by (relation "measure (\<lambda>(lines, i, found). length lines - i)")
    (auto dest!: detailLoop_index)

declare mainLoop.simps [simp del]

text \<open>
  \<open>extractCheckedFindings\<close> on the text of the report, once it is read.
\<close>

definition extractCheckedFindings :: "string \<Rightarrow> error + ExtractedFinding list" where
  "extractCheckedFindings reportText = mainLoop (splitNewline reportText) 0 []"

subsection \<open>Reports\<close>

text \<open>The example of the specification, and a report with an unchecked and an incomplete item.\<close>

definition specReport :: string where
  "specReport = ''- [x] **[HIGH]** Null Check\<newline>- **File**: `a.ts`:12\<newline>- **Issue**: missing check\<newline>''"

definition mixedReport :: string where
  "mixedReport =
     ''## Code Review\<newline>- [x] **[HIGH]** Null Check\<newline>  - **File**: `a.ts`:12\<newline>  - **Issue**: missing check\<newline>  - **Code**:\<newline>    ```typescript\<newline>    a.b\<newline>    ```\<newline>- [ ] **[LOW]** Naming\<newline>  - **File**: `b.ts`\<newline>  - **Issue**: bad name\<newline>- [x] **[MEDIUM]** No file\<newline>  - **Issue**: something\<newline>''"

text \<open>A report that ends inside an open fence, and one that ends after an item line.\<close>

definition unclosedFence :: string where
  "unclosedFence =
     ''- [x] **[HIGH]** Null Check\<newline>  - **File**: `a.ts`\<newline>  - **Issue**: missing check\<newline>  - **Code**:\<newline>    ```typescript\<newline>    a.b\<newline>- [x] **[LOW]** Swallowed''"

definition truncatedItem :: string where
  "truncatedItem = ''- [x] **[HIGH]** Null Check''"

text \<open>
  Two reports in which a \<open>Code\<close> line is followed by the next item and not by a
  fence: in the first the next item is unchecked, in the second it is checked and has
  both of its fields.
\<close>

definition unfencedCode :: string where
  "unfencedCode =
     ''- [x] **[HIGH]** A\<newline>- **Code**: see below\<newline>- [ ] **[LOW]** B\<newline>- **File**: `b.ts`\<newline>- **Issue**: j\<newline>''"

definition unfencedCodeChecked :: string where
  "unfencedCodeChecked =
     ''- [x] **[HIGH]** A\<newline>- **File**: `a.ts`\<newline>- **Issue**: i\<newline>- **Code**: see below\<newline>- [x] **[LOW]** B\<newline>- **File**: `b.ts`\<newline>- **Issue**: j\<newline>''"
section \<open>Properties of the extractor\<close>

subsection \<open>The loops return\<close>

lemma codeLoop_returns: "\<exists>cs j. codeLoop lines i acc = Inr (cs, j)"
proof (induction lines i acc rule: codeLoop.induct)
  case (1 lines i codeLines)
  from "1.IH" show ?case
    by (subst codeLoop.simps) (auto simp: elementAt_def)
qed

lemma detailLoop_returns: "\<exists>g j. detailLoop lines i finding = Inr (g, j)"
proof (induction lines i finding rule: detailLoop.induct)
  case (1 lines i finding)
  obtain cs k where c: "codeLoop lines (i + 2) [] = Inr (cs, k)"
    using codeLoop_returns by blast
  from "1.IH"(1,3,4) "1.IH"(2)[OF _ _ _ _ _ _ c refl] c show ?case
    by (subst detailLoop.simps) (auto simp: elementAt_def split: option.splits)
qed

lemma mainLoop_returns: "\<exists>fs. mainLoop lines i found = Inr fs"
proof (induction lines i found rule: mainLoop.induct)
  case (1 lines i found)
  show ?case
  proof (cases "i < length lines")
    case False
    then show ?thesis
      by (subst mainLoop.simps) simp
  next
    case True
    then have a: "elementAt lines i = Some (lines ! i)"
      by (simp add: elementAt_def)
    show ?thesis
    proof (cases "checkedMatch (lines ! i)")
      case None
      with True a "1.IH"(1)[OF True a None] show ?thesis
        by (subst mainLoop.simps) simp
    next
      case (Some m)
      obtain sev cat where m: "m = (sev, cat)"
        by (cases m)
      obtain g j where d: "detailLoop lines (i + 1) (newFinding sev cat) = Inr (g, j)"
        using detailLoop_returns by blast
      from "1.IH"(2)[OF True a Some[unfolded m] refl d refl] True a Some m d show ?thesis
        by (subst mainLoop.simps) simp
    qed
  qed
qed


subsection \<open>The extractor on reports\<close>

text \<open>
  The example of the specification. In the report with an unchecked and an incomplete
  item the detail loop stops at the unchecked item, whose fields are not read, and the
  item without a file is dropped.
\<close>

lemma specReport_extract:
  "extractCheckedFindings specReport =
     Inr [\<lparr>severity = ''high'', category = ''Null Check'', file = ''a.ts'', line = Some 12,
           issue = ''missing check'', suggestion = None, code = None\<rparr>]"
  unfolding specReport_def by code_simp

lemma mixedReport_extract:
  "extractCheckedFindings mixedReport =
     Inr [\<lparr>severity = ''high'', category = ''Null Check'', file = ''a.ts'', line = Some 12,
           issue = ''missing check'', suggestion = None, code = Some ''a.b''\<rparr>]"
  unfolding mixedReport_def by code_simp

text \<open>
  C6 (the code at the failing inputs). After a \<open>Code\<close> line the loop steps over the
  next line without the test that ends the details of an item. When that line is the
  unchecked item \<open>- [ ] **[LOW]** B\<close>, the File and Issue lines of B are read as
  details of the checked item A, which has neither field of its own: the result is one
  finding, of A, with the file and the issue of B. When that line is the checked item
  \<open>- [x] **[LOW]** B\<close>, which has both fields, B gives no finding and its file and
  issue replace those of A.
\<close>

theorem unfenced_code_line_extract:
  "extractCheckedFindings unfencedCode =
     Inr [\<lparr>severity = ''high'', category = ''A'', file = ''b.ts'', line = None,
           issue = ''j'', suggestion = None, code = None\<rparr>]
   \<and> extractCheckedFindings unfencedCodeChecked =
     Inr [\<lparr>severity = ''high'', category = ''A'', file = ''b.ts'', line = None,
           issue = ''j'', suggestion = None, code = None\<rparr>]"
proof -
  have "extractCheckedFindings unfencedCode =
     Inr [\<lparr>severity = ''high'', category = ''A'', file = ''b.ts'', line = None,
           issue = ''j'', suggestion = None, code = None\<rparr>]"
    unfolding unfencedCode_def by code_simp
  moreover have "extractCheckedFindings unfencedCodeChecked =
     Inr [\<lparr>severity = ''high'', category = ''A'', file = ''b.ts'', line = None,
           issue = ''j'', suggestion = None, code = None\<rparr>]"
    unfolding unfencedCodeChecked_def by code_simp
  ultimately show ?thesis
    by simp
qed

text \<open>
  C10. For every report text the extraction returns a list of findings: the three loops
  end, since each pass moves the index forward, and no line is read outside the array,
  so that no error is raised on malformed markdown, an unclosed fence or a truncated item.
\<close>

theorem extraction_returns:
  "\<exists>found. extractCheckedFindings reportText = Inr found"
  unfolding extractCheckedFindings_def by (rule mainLoop_returns)

text \<open>
  On a fence that is never closed the code lines run to the end of the text and take
  the item line behind them; an item cut off after its first line has no fields and is
  dropped.
\<close>

lemma unclosedFence_extract:
  "extractCheckedFindings unclosedFence =
     Inr [\<lparr>severity = ''high'', category = ''Null Check'', file = ''a.ts'', line = None,
           issue = ''missing check'', suggestion = None,
           code = Some ''a.b\<newline>- [x] **[LOW]** Swallowed''\<rparr>]"
  unfolding unclosedFence_def by code_simp

lemma truncatedItem_extract: "extractCheckedFindings truncatedItem = Inr []"
  unfolding truncatedItem_def by code_simp

end
